theory Spec2Isabelle
  imports Main
begin

section \<open>Outcome classification: Utils.processRoll\<close>

text \<open>
  The classifier reads an evaluated roll through three properties: \<open>roll.dice\<close> (the dice
  terms of the roll), \<open>roll.total\<close> and \<open>roll.ignored\<close>. Of a die it reads \<open>faces\<close> and
  \<open>results\<close>, of a result \<open>result\<close> and \<open>rerolled\<close>. Numbers are integers.
\<close>

record dresult =
  result :: int
  rerolled :: bool

record die =
  faces :: int
  results :: "dresult list"

record eroll =
  dice :: "die list"
  total :: int
  ignored :: bool

text \<open>
  \<open>critChecks\<close> is documented as \<open>boolean|number[]\<close>. The only error the function can
  raise is the TypeError of calling \<open>includes\<close> on a boolean.
\<close>

datatype critChecks = ChkBool bool | ChkList "int list"

datatype error = TypeError

record outcome =
  o_roll :: eroll
  o_total :: int
  o_ignored :: "bool option"
  critType :: "string option"
  isCrit :: bool

text \<open>\<open>threshold || d.faces\<close>: an absent threshold and the number 0 are both falsy.\<close>

definition effThreshold :: "int option \<Rightarrow> int \<Rightarrow> int" where
  "effThreshold threshold f =
     (case threshold of None \<Rightarrow> f | Some t \<Rightarrow> if t = 0 then f else t)"

text \<open>
  \<open>critChecks == true\<close> is the loose comparison. For a boolean it is the boolean itself.
  An array is first converted to its string (the elements joined by commas) and that string
  to a number, which is compared with 1: of the arrays of integers exactly \<open>[1]\<close> is
  loosely equal to \<open>true\<close>.
\<close>

fun looseEqTrue :: "critChecks \<Rightarrow> bool" where
  "looseEqTrue (ChkBool b) = b"
| "looseEqTrue (ChkList xs) = (xs = [1])"

text \<open>\<open>critChecks.includes(f)\<close>: a boolean has no such method.\<close>

fun includesArr :: "critChecks \<Rightarrow> int \<Rightarrow> error + bool" where
  "includesArr (ChkBool b) f = Inl TypeError"
| "includesArr (ChkList xs) f = Inr (f \<in> set xs)"

text \<open>
  The guard \<open>d.faces > 1 && (critChecks == true || critChecks.includes(d.faces))\<close>,
  with the short circuits of \<open>&&\<close> and \<open>||\<close>.
\<close>

definition dieChecked :: "critChecks \<Rightarrow> die \<Rightarrow> error + bool" where
  "dieChecked cc d =
     (if faces d > 1 then (if looseEqTrue cc then Inr True else includesArr cc (faces d))
      else Inr False)"

text \<open>The inner loop over one die's results, on the pair \<open>(high, low)\<close>.\<close>

fun tallyResults :: "int \<Rightarrow> dresult list \<Rightarrow> nat \<times> nat \<Rightarrow> nat \<times> nat" where
  "tallyResults thr [] hl = hl"
| "tallyResults thr (r # rs) (high, low) =
     tallyResults thr rs
       (if result r \<ge> thr then (high + 1, low)
        else if result r = 1 then (high, low + 1)
        else (high, low))"

text \<open>The outer loop over \<open>roll.dice\<close>.\<close>

fun tallyDice :: "int option \<Rightarrow> critChecks \<Rightarrow> die list \<Rightarrow> nat \<times> nat \<Rightarrow> error + nat \<times> nat" where
  "tallyDice threshold cc [] hl = Inr hl"
| "tallyDice threshold cc (d # ds) hl =
     (case dieChecked cc d of
        Inl e \<Rightarrow> Inl e
      | Inr True \<Rightarrow>
          tallyDice threshold cc ds
            (tallyResults (effThreshold threshold (faces d))
               (filter (\<lambda>r. \<not> rerolled r) (results d)) hl)
      | Inr False \<Rightarrow> tallyDice threshold cc ds hl)"

definition classify :: "nat \<Rightarrow> nat \<Rightarrow> string option" where
  "classify high low =
     (if high > 0 \<and> low > 0 then Some ''mixed''
      else if high > 0 then Some ''success''
      else if low > 0 then Some ''failure''
      else None)"

text \<open>
  \<open>processRoll(roll, threshold, critChecks=true, bonus=null)\<close>. An absent \<open>critChecks\<close>
  takes the default \<open>true\<close>. The result \<open>Inr None\<close> is the \<open>null\<close> of the early return.
\<close>

definition processRoll ::
  "eroll option \<Rightarrow> int option \<Rightarrow> critChecks option \<Rightarrow> eroll option \<Rightarrow> error + outcome option" where
  "processRoll roll threshold critChecks bonus =
     (case roll of
        None \<Rightarrow> Inr None
      | Some r \<Rightarrow>
          (case tallyDice threshold (case critChecks of None \<Rightarrow> ChkBool True | Some cc \<Rightarrow> cc)
                  (dice r) (0, 0) of
             Inl e \<Rightarrow> Inl e
           | Inr (high, low) \<Rightarrow>
               Inr (Some \<lparr> o_roll = r,
                           o_total = total r + (case bonus of None \<Rightarrow> 0 | Some b \<Rightarrow> total b),
                           o_ignored = (if ignored r then Some True else None),
                           critType = classify high low,
                           isCrit = (high > 0) \<rparr>)))"

subsection \<open>The tallies in closed form\<close>

definition activeResults :: "die \<Rightarrow> dresult list" where
  "activeResults d = filter (\<lambda>r. \<not> rerolled r) (results d)"

text \<open>
  A die is selected when it has more than one face and \<open>critChecks\<close> is \<open>true\<close> or lists
  its face count.
\<close>

fun selected :: "critChecks \<Rightarrow> die \<Rightarrow> bool" where
  "selected (ChkBool b) d = (faces d > 1 \<and> b)"
| "selected (ChkList xs) d = (faces d > 1 \<and> faces d \<in> set xs)"

definition highTally :: "int option \<Rightarrow> critChecks \<Rightarrow> die list \<Rightarrow> nat" where
  "highTally threshold cc ds =
     (\<Sum>d\<leftarrow>filter (selected cc) ds.
        length (filter (\<lambda>r. result r \<ge> effThreshold threshold (faces d)) (activeResults d)))"

text \<open>The low tally as the specification words it: the active results equal to 1.\<close>

definition lowTallySpec :: "critChecks \<Rightarrow> die list \<Rightarrow> nat" where
  "lowTallySpec cc ds =
     (\<Sum>d\<leftarrow>filter (selected cc) ds. length (filter (\<lambda>r. result r = 1) (activeResults d)))"

text \<open>The low tally of the code: the active results equal to 1 that are below the threshold.\<close>

definition lowTally :: "int option \<Rightarrow> critChecks \<Rightarrow> die list \<Rightarrow> nat" where
  "lowTally threshold cc ds =
     (\<Sum>d\<leftarrow>filter (selected cc) ds.
        length (filter (\<lambda>r. result r = 1 \<and> \<not> result r \<ge> effThreshold threshold (faces d))
                  (activeResults d)))"

definition outcomeOf :: "eroll \<Rightarrow> eroll option \<Rightarrow> nat \<Rightarrow> nat \<Rightarrow> outcome" where
  "outcomeOf r bonus high low =
     \<lparr> o_roll = r,
       o_total = total r + (case bonus of None \<Rightarrow> 0 | Some b \<Rightarrow> total b),
       o_ignored = (if ignored r then Some True else None),
       critType = classify high low,
       isCrit = (high > 0) \<rparr>"

lemma tallyResults_count:
  "tallyResults thr rs (h, l) =
     (h + length (filter (\<lambda>r. result r \<ge> thr) rs),
      l + length (filter (\<lambda>r. result r = 1 \<and> \<not> result r \<ge> thr) rs))"
  by (induction rs arbitrary: h l) auto

lemma dieChecked_selected:
  assumes "cc = ChkBool True \<or> (\<exists>xs. cc = ChkList xs \<and> xs \<noteq> [1])"
  shows "dieChecked cc d = Inr (selected cc d)"
  using assms by (auto simp: dieChecked_def)

lemma tallyDice_count:
  assumes "cc = ChkBool True \<or> (\<exists>xs. cc = ChkList xs \<and> xs \<noteq> [1])"
  shows "tallyDice threshold cc ds (h, l) =
           Inr (h + highTally threshold cc ds, l + lowTally threshold cc ds)"
proof (induction ds arbitrary: h l)
  case Nil
  show ?case by (simp add: highTally_def lowTally_def)
next
  case (Cons d ds)
  show ?case
  proof (cases "selected cc d")
    case True
    then show ?thesis
      using Cons.IH
      by (simp add: dieChecked_selected [OF assms] tallyResults_count activeResults_def
          highTally_def lowTally_def)
  next
    case False
    then show ?thesis
      using Cons.IH
      by (simp add: dieChecked_selected [OF assms] highTally_def lowTally_def)
  qed
qed

text \<open>
  Claim C1, as the code has it. For a roll and a \<open>critChecks\<close> that is \<open>true\<close> or a list of
  face counts other than \<open>[1]\<close>, \<open>processRoll\<close> returns the roll, the total plus the bonus
  total, and the classification of two tallies taken over the dice with more than one face
  that \<open>critChecks\<close> selects: \<open>high\<close> counts the active (not rerolled) results at or above
  the threshold (the die's face count when the threshold is unset), \<open>low\<close> counts the active
  results equal to 1 that are below the threshold. The classification is mixed, success,
  failure or none, and \<open>isCrit\<close> is \<open>high > 0\<close>. An absent \<open>critChecks\<close> is \<open>true\<close>, and an
  absent roll gives \<open>null\<close>.
\<close>

theorem processRoll_classifies:
  assumes "cc = ChkBool True \<or> (\<exists>xs. cc = ChkList xs \<and> xs \<noteq> [1])"
  shows "processRoll (Some r) threshold (Some cc) bonus =
           Inr (Some (outcomeOf r bonus (highTally threshold cc (dice r))
                                        (lowTally threshold cc (dice r))))
         \<and> processRoll (Some r) threshold None bonus =
           Inr (Some (outcomeOf r bonus (highTally threshold (ChkBool True) (dice r))
                                        (lowTally threshold (ChkBool True) (dice r))))
         \<and> processRoll None threshold cco bonus = Inr None"
proof -
  have a: "tallyDice threshold cc (dice r) (0, 0) =
             Inr (highTally threshold cc (dice r), lowTally threshold cc (dice r))"
    using tallyDice_count [OF assms, of threshold "dice r" 0 0] by simp
  have b: "tallyDice threshold (ChkBool True) (dice r) (0, 0) =
             Inr (highTally threshold (ChkBool True) (dice r),
                  lowTally threshold (ChkBool True) (dice r))"
    using tallyDice_count [of "ChkBool True" threshold "dice r" 0 0] by simp
  show ?thesis
    by (simp add: processRoll_def a b outcomeOf_def)
qed

text \<open>
  The example of the specification: threshold 20, one d20 showing 20 and one showing 1 give
  \<open>mixed\<close> and \<open>isCrit = true\<close>.
\<close>

theorem processRoll_classifies_witness:
  "processRoll
     (Some \<lparr> dice = [\<lparr> faces = 20, results = [\<lparr> result = 20, rerolled = False \<rparr>,
                                               \<lparr> result = 1, rerolled = False \<rparr>] \<rparr>],
             total = 21, ignored = False \<rparr>)
     (Some 20) (Some (ChkList [20])) None =
   Inr (Some \<lparr> o_roll = \<lparr> dice = [\<lparr> faces = 20, results = [\<lparr> result = 20, rerolled = False \<rparr>,
                                               \<lparr> result = 1, rerolled = False \<rparr>] \<rparr>],
             total = 21, ignored = False \<rparr>,
               o_total = 21, o_ignored = None, critType = Some ''mixed'', isCrit = True \<rparr>)"
proof -
  have h: "ChkList [20] = ChkBool True \<or> (\<exists>xs. ChkList [20] = ChkList xs \<and> xs \<noteq> [1])"
    by simp
  show ?thesis
    using processRoll_classifies [OF h, of
        "\<lparr> dice = [\<lparr> faces = 20, results = [\<lparr> result = 20, rerolled = False \<rparr>,
                                           \<lparr> result = 1, rerolled = False \<rparr>] \<rparr>],
           total = 21, ignored = False \<rparr>" "Some 20" None]
    by (simp add: outcomeOf_def highTally_def lowTally_def activeResults_def effThreshold_def
        classify_def)
qed

text \<open>
  Claim C1 as stated counts in \<open>low\<close> every active result equal to 1. With threshold 1 a d20
  showing 1 is at the threshold: the code counts it in \<open>high\<close> only and answers
  \<open>success\<close>, where the two tallies of the statement would both be 1 and the answer
  \<open>mixed\<close>.
\<close>

theorem processRoll_low_counterexample:
  "processRoll
     (Some \<lparr> dice = [\<lparr> faces = 20, results = [\<lparr> result = 1, rerolled = False \<rparr>] \<rparr>],
             total = 1, ignored = False \<rparr>)
     (Some 1) (Some (ChkBool True)) None =
   Inr (Some \<lparr> o_roll = \<lparr> dice = [\<lparr> faces = 20, results = [\<lparr> result = 1, rerolled = False \<rparr>] \<rparr>],
                          total = 1, ignored = False \<rparr>,
               o_total = 1, o_ignored = None, critType = Some ''success'', isCrit = True \<rparr>)
   \<and> highTally (Some 1) (ChkBool True)
        [\<lparr> faces = 20, results = [\<lparr> result = 1, rerolled = False \<rparr>] \<rparr>] = 1
   \<and> lowTallySpec (ChkBool True)
        [\<lparr> faces = 20, results = [\<lparr> result = 1, rerolled = False \<rparr>] \<rparr>] = 1
   \<and> classify 1 1 = Some ''mixed''"
  by (simp add: processRoll_def dieChecked_def effThreshold_def classify_def highTally_def
      lowTallySpec_def activeResults_def)

subsection \<open>Threshold 1 and threshold 0\<close>

lemma tallyResults_thr_one_low: "snd (tallyResults 1 rs (h, l)) = l"
  by (induction rs arbitrary: h l) auto

lemma tallyDice_thr_one_low:
  "tallyDice (Some 1) cc ds (h, l) = Inr (h', l') \<Longrightarrow> l' = l"
proof (induction ds arbitrary: h l)
  case Nil
  then show ?case by simp
next
  case (Cons d ds)
  show ?case
  proof (cases "dieChecked cc d")
    case (Inl e)
    with Cons.prems show ?thesis by simp
  next
    case (Inr b)
    show ?thesis
    proof (cases b)
      case True
      obtain h1 l1 where t: "tallyResults 1 (filter (\<lambda>r. \<not> rerolled r) (results d)) (h, l) = (h1, l1)"
        by (cases "tallyResults 1 (filter (\<lambda>r. \<not> rerolled r) (results d)) (h, l)") auto
      have "l1 = l"
        using tallyResults_thr_one_low [of "filter (\<lambda>r. \<not> rerolled r) (results d)" h l] t by simp
      moreover have "tallyDice (Some 1) cc ds (h1, l1) = Inr (h', l')"
        using Cons.prems Inr True t by (simp add: effThreshold_def)
      ultimately show ?thesis using Cons.IH by blast
    next
      case False
      with Cons.prems Inr have "tallyDice (Some 1) cc ds (h, l) = Inr (h', l')" by simp
      then show ?thesis using Cons.IH by blast
    qed
  qed
qed

lemma effThreshold_zero: "effThreshold (Some 0) f = effThreshold None f"
  by (simp add: effThreshold_def)

lemma tallyDice_zero: "tallyDice (Some 0) cc ds hl = tallyDice None cc ds hl"
  by (induction ds arbitrary: hl) (auto simp: effThreshold_zero split: sum.splits bool.splits)

text \<open>
  The tallies of the statements below, with the threshold of each die written out: \<open>highAt\<close>
  counts the active results of the selected dice that are at or above the threshold, \<open>lowAt\<close>
  those equal to 1 and below it.
\<close>

definition highAt :: "(die \<Rightarrow> int) \<Rightarrow> critChecks \<Rightarrow> die list \<Rightarrow> nat" where
  "highAt thr cc ds =
     (\<Sum>d\<leftarrow>filter (selected cc) ds. length (filter (\<lambda>x. thr d \<le> result x) (activeResults d)))"

definition lowAt :: "(die \<Rightarrow> int) \<Rightarrow> critChecks \<Rightarrow> die list \<Rightarrow> nat" where
  "lowAt thr cc ds =
     (\<Sum>d\<leftarrow>filter (selected cc) ds.
        length (filter (\<lambda>x. result x = 1 \<and> result x < thr d) (activeResults d)))"

lemma highTally_one: "highTally (Some 1) cc ds = highAt (\<lambda>d. 1) cc ds"
  by (simp add: highTally_def highAt_def effThreshold_def)

lemma lowTally_one: "lowTally (Some 1) cc ds = 0"
  by (simp add: lowTally_def effThreshold_def)

lemma highTally_unset: "highTally None cc ds = highAt faces cc ds"
  by (simp add: highTally_def highAt_def effThreshold_def)

lemma lowTally_unset: "lowTally None cc ds = lowAt faces cc ds"
  by (simp add: lowTally_def lowAt_def effThreshold_def not_le)

lemma highAt_one_all:
  "\<forall>d\<in>set ds. \<forall>x\<in>set (results d). 1 \<le> result x \<Longrightarrow>
   highAt (\<lambda>d. 1) cc ds = (\<Sum>d\<leftarrow>filter (selected cc) ds. length (activeResults d))"
proof (induction ds)
  case Nil
  show ?case by (simp add: highAt_def)
next
  case (Cons d ds)
  have "filter (\<lambda>x. 1 \<le> result x) (activeResults d) = activeResults d"
    using Cons.prems by (auto simp: activeResults_def intro: filter_cong)
  then show ?case
    using Cons by (simp add: highAt_def)
qed

text \<open>
  Claim C10, as the code has it. With threshold 1, and \<open>critChecks\<close> as in claim C1, the
  \<open>high\<close> tally is the number of active results of the selected dice that are at least 1 (a
  result of exactly 1 included, a result below 1 not), the \<open>low\<close> tally is 0, and the
  classification is \<open>success\<close> when \<open>high > 0\<close> and \<open>null\<close> otherwise. Whatever \<open>critChecks\<close>
  is, a call with threshold 1 that returns never returns \<open>failure\<close> or \<open>mixed\<close>. When every
  result is at least 1, \<open>high\<close> is the number of all active results of the selected dice. A
  threshold of 0 gives the result of an unset threshold, which is the classification with each
  die's own face count as its threshold.
\<close>

theorem processRoll_threshold_one:
  "(cc = ChkBool True \<or> (\<exists>xs. cc = ChkList xs \<and> xs \<noteq> [1]) \<longrightarrow>
      processRoll (Some r) (Some 1) (Some cc) bonus =
        Inr (Some \<lparr> o_roll = r,
                    o_total = total r + (case bonus of None \<Rightarrow> 0 | Some b \<Rightarrow> total b),
                    o_ignored = (if ignored r then Some True else None),
                    critType = (if 0 < highAt (\<lambda>d. 1) cc (dice r) then Some ''success'' else None),
                    isCrit = (0 < highAt (\<lambda>d. 1) cc (dice r)) \<rparr>)
      \<and> processRoll (Some r) (Some 0) (Some cc) bonus = processRoll (Some r) None (Some cc) bonus
      \<and> processRoll (Some r) None (Some cc) bonus =
        Inr (Some \<lparr> o_roll = r,
                    o_total = total r + (case bonus of None \<Rightarrow> 0 | Some b \<Rightarrow> total b),
                    o_ignored = (if ignored r then Some True else None),
                    critType =
                      (if 0 < highAt faces cc (dice r) \<and> 0 < lowAt faces cc (dice r)
                       then Some ''mixed''
                       else if 0 < highAt faces cc (dice r) then Some ''success''
                       else if 0 < lowAt faces cc (dice r) then Some ''failure''
                       else None),
                    isCrit = (0 < highAt faces cc (dice r)) \<rparr>))
   \<and> (processRoll roll (Some 1) cco bonus = Inr (Some out) \<longrightarrow>
        critType out \<noteq> Some ''failure'' \<and> critType out \<noteq> Some ''mixed'')
   \<and> ((\<forall>d\<in>set ds. \<forall>x\<in>set (results d). 1 \<le> result x) \<longrightarrow>
        highAt (\<lambda>d. 1) cc ds = (\<Sum>d\<leftarrow>filter (selected cc) ds. length (activeResults d)))"
proof (intro conjI impI)
  assume g: "cc = ChkBool True \<or> (\<exists>xs. cc = ChkList xs \<and> xs \<noteq> [1])"
  have one: "tallyDice (Some 1) cc (dice r) (0, 0) = Inr (highAt (\<lambda>d. 1) cc (dice r), 0)"
    using tallyDice_count [OF g, of "Some 1" "dice r" 0 0]
    by (simp add: highTally_one lowTally_one)
  have unset: "tallyDice None cc (dice r) (0, 0) =
                 Inr (highAt faces cc (dice r), lowAt faces cc (dice r))"
    using tallyDice_count [OF g, of None "dice r" 0 0]
    by (simp add: highTally_unset lowTally_unset)
  show "processRoll (Some r) (Some 1) (Some cc) bonus =
        Inr (Some \<lparr> o_roll = r,
                    o_total = total r + (case bonus of None \<Rightarrow> 0 | Some b \<Rightarrow> total b),
                    o_ignored = (if ignored r then Some True else None),
                    critType = (if 0 < highAt (\<lambda>d. 1) cc (dice r) then Some ''success'' else None),
                    isCrit = (0 < highAt (\<lambda>d. 1) cc (dice r)) \<rparr>)"
    by (simp add: processRoll_def one classify_def)
  show "processRoll (Some r) (Some 0) (Some cc) bonus = processRoll (Some r) None (Some cc) bonus"
    by (simp add: processRoll_def tallyDice_zero)
  show "processRoll (Some r) None (Some cc) bonus =
        Inr (Some \<lparr> o_roll = r,
                    o_total = total r + (case bonus of None \<Rightarrow> 0 | Some b \<Rightarrow> total b),
                    o_ignored = (if ignored r then Some True else None),
                    critType =
                      (if 0 < highAt faces cc (dice r) \<and> 0 < lowAt faces cc (dice r)
                       then Some ''mixed''
                       else if 0 < highAt faces cc (dice r) then Some ''success''
                       else if 0 < lowAt faces cc (dice r) then Some ''failure''
                       else None),
                    isCrit = (0 < highAt faces cc (dice r)) \<rparr>)"
    by (simp add: processRoll_def unset classify_def)
next
  assume p: "processRoll roll (Some 1) cco bonus = Inr (Some out)"
  then obtain r where r: "roll = Some r"
    by (cases roll) (auto simp: processRoll_def)
  let ?cc = "case cco of None \<Rightarrow> ChkBool True | Some c \<Rightarrow> c"
  from p r obtain h l where t: "tallyDice (Some 1) ?cc (dice r) (0, 0) = Inr (h, l)"
    and o: "critType out = classify h l"
    by (cases "tallyDice (Some 1) ?cc (dice r) (0, 0)") (auto simp: processRoll_def)
  have "l = 0" using tallyDice_thr_one_low [OF t] by simp
  with o show "critType out \<noteq> Some ''failure''" and "critType out \<noteq> Some ''mixed''"
    by (simp_all add: classify_def)
next
  assume "\<forall>d\<in>set ds. \<forall>x\<in>set (results d). 1 \<le> result x"
  then show "highAt (\<lambda>d. 1) cc ds = (\<Sum>d\<leftarrow>filter (selected cc) ds. length (activeResults d))"
    by (rule highAt_one_all)
qed

text \<open>
  A d20 rolled twice, showing 1 and 7: at threshold 1 both results are high and the answer is
  \<open>success\<close>; at threshold 0, as without a threshold, the threshold is 20, the 1 is low and
  the answer is \<open>failure\<close>.
\<close>

theorem processRoll_threshold_one_witness:
  "processRoll
     (Some \<lparr> dice = [\<lparr> faces = 20, results = [\<lparr> result = 1, rerolled = False \<rparr>,
                                               \<lparr> result = 7, rerolled = False \<rparr>] \<rparr>],
             total = 8, ignored = False \<rparr>)
     (Some 1) (Some (ChkBool True)) None =
   Inr (Some \<lparr> o_roll = \<lparr> dice = [\<lparr> faces = 20, results = [\<lparr> result = 1, rerolled = False \<rparr>,
                                               \<lparr> result = 7, rerolled = False \<rparr>] \<rparr>],
             total = 8, ignored = False \<rparr>,
               o_total = 8, o_ignored = None, critType = Some ''success'', isCrit = True \<rparr>)
   \<and> processRoll
     (Some \<lparr> dice = [\<lparr> faces = 20, results = [\<lparr> result = 1, rerolled = False \<rparr>,
                                               \<lparr> result = 7, rerolled = False \<rparr>] \<rparr>],
             total = 8, ignored = False \<rparr>)
     (Some 0) (Some (ChkBool True)) None =
   Inr (Some \<lparr> o_roll = \<lparr> dice = [\<lparr> faces = 20, results = [\<lparr> result = 1, rerolled = False \<rparr>,
                                               \<lparr> result = 7, rerolled = False \<rparr>] \<rparr>],
             total = 8, ignored = False \<rparr>,
               o_total = 8, o_ignored = None, critType = Some ''failure'', isCrit = False \<rparr>)
   \<and> highAt (\<lambda>d. 1) (ChkBool True)
        [\<lparr> faces = 20, results = [\<lparr> result = 1, rerolled = False \<rparr>,
                                  \<lparr> result = 7, rerolled = False \<rparr>] \<rparr>] = 2"
proof -
  let ?d = "\<lparr> faces = 20, results = [\<lparr> result = 1, rerolled = False \<rparr>,
                                    \<lparr> result = 7, rerolled = False \<rparr>] \<rparr>"
  let ?r = "\<lparr> dice = [?d], total = 8, ignored = False \<rparr>"
  have c: "ChkBool True = ChkBool True \<or> (\<exists>xs. ChkBool True = ChkList xs \<and> xs \<noteq> [1])"
    by simp
  have g: "\<forall>d\<in>set [?d]. \<forall>x\<in>set (results d). 1 \<le> result x"
    by simp
  have h1: "highAt (\<lambda>d. 1) (ChkBool True) [?d] = 2"
    using processRoll_threshold_one [of "ChkBool True" ?r None None None
        "\<lparr> o_roll = ?r, o_total = 0, o_ignored = None, critType = None, isCrit = False \<rparr>" "[?d]"] g
    by (simp add: activeResults_def)
  have hf: "highAt faces (ChkBool True) [?d] = 0" "lowAt faces (ChkBool True) [?d] = 1"
    by (simp_all add: highAt_def lowAt_def activeResults_def)
  show ?thesis
    using processRoll_threshold_one [of "ChkBool True" ?r None None None
        "\<lparr> o_roll = ?r, o_total = 0, o_ignored = None, critType = None, isCrit = False \<rparr>" "[?d]"]
      c h1 hf
    by simp
qed

text \<open>
  Claim C10 as stated has every active result of a selected die at or above threshold 1. A
  die with two faces that shows 0 is selected and its result is active, and the result is
  below 1: the \<open>high\<close> tally stays 0 and the roll is not a crit.
\<close>

theorem processRoll_threshold_one_counterexample:
  "selected (ChkBool True) \<lparr> faces = 2, results = [\<lparr> result = 0, rerolled = False \<rparr>] \<rparr>
   \<and> activeResults \<lparr> faces = 2, results = [\<lparr> result = 0, rerolled = False \<rparr>] \<rparr> =
       [\<lparr> result = 0, rerolled = False \<rparr>]
   \<and> \<not> (1 \<le> result \<lparr> result = 0, rerolled = False \<rparr>)
   \<and> processRoll
       (Some \<lparr> dice = [\<lparr> faces = 2, results = [\<lparr> result = 0, rerolled = False \<rparr>] \<rparr>],
               total = 0, ignored = False \<rparr>)
       (Some 1) (Some (ChkBool True)) None =
     Inr (Some \<lparr> o_roll = \<lparr> dice = [\<lparr> faces = 2, results = [\<lparr> result = 0, rerolled = False \<rparr>] \<rparr>],
                            total = 0, ignored = False \<rparr>,
                 o_total = 0, o_ignored = None, critType = None, isCrit = False \<rparr>)"
  by (simp add: processRoll_def dieChecked_def effThreshold_def classify_def activeResults_def)


section \<open>Roll state resolution: Utils.eventToAdvantage and Utils.getRollState\<close>

text \<open>
  The fields of the request are tested for truthiness only. A flag is \<open>null\<close>, a boolean or
  a number (callers pass booleans, \<open>eventToAdvantage\<close> passes 0 and 1); a roll state is
  \<open>null\<close> or a string, and the empty string is falsy.
\<close>

datatype flag = FNull | FBool bool | FNum int

fun truthy :: "flag \<Rightarrow> bool" where
  "truthy FNull = False"
| "truthy (FBool b) = b"
| "truthy (FNum n) = (n \<noteq> 0)"

fun truthyStr :: "string option \<Rightarrow> bool" where
  "truthyStr None = False"
| "truthyStr (Some s) = (s \<noteq> [])"

record keyEvent =
  shiftKey :: bool
  ctrlKey :: bool
  metaKey :: bool

record request =
  rollState :: "string option"
  event :: "keyEvent option"
  advantage :: flag
  disadvantage :: flag
  adv :: flag
  disadv :: flag

text \<open>\<open>eventToAdvantage(ev={})\<close>: an absent event is the empty object, whose keys are falsy.\<close>

definition eventToAdvantage :: "keyEvent option \<Rightarrow> request" where
  "eventToAdvantage ev =
     (let none = \<lparr> rollState = None, event = None, advantage = FNum 0, disadvantage = FNum 0,
                   adv = FNull, disadv = FNull \<rparr>
      in case ev of
           None \<Rightarrow> none
         | Some e \<Rightarrow>
             if shiftKey e then none\<lparr> advantage := FNum 1 \<rparr>
             else if ctrlKey e \<or> metaKey e then none\<lparr> disadvantage := FNum 1 \<rparr>
             else none)"

function getRollState :: "request \<Rightarrow> string option" where
  "getRollState rq =
     (if truthyStr (rollState rq) then rollState rq
      else if truthy (advantage rq) \<or> truthy (adv rq) then Some ''highest''
      else if truthy (disadvantage rq) \<or> truthy (disadv rq) then Some ''lowest''
      else (case event rq of
              None \<Rightarrow> None
            | Some e \<Rightarrow>
                (let modifiers = eventToAdvantage (Some e)
                 in if truthy (advantage modifiers) \<or> truthy (disadvantage modifiers)
                    then getRollState modifiers
                    else None)))"
  by pat_completeness auto
termination
  by (relation "measure (\<lambda>rq. if event rq = None then 0 else 1)")
     (auto simp: eventToAdvantage_def Let_def)

declare getRollState.simps [simp del]

lemma eventToAdvantage_fields:
  "rollState (eventToAdvantage ev) = None"
  "event (eventToAdvantage ev) = None"
  "adv (eventToAdvantage ev) = FNull"
  "disadv (eventToAdvantage ev) = FNull"
  by (auto simp: eventToAdvantage_def Let_def split: option.splits)

lemma eventToAdvantage_truthy:
  "truthy (advantage (eventToAdvantage (Some e))) = shiftKey e"
  "truthy (disadvantage (eventToAdvantage (Some e))) = (\<not> shiftKey e \<and> (ctrlKey e \<or> metaKey e))"
  by (auto simp: eventToAdvantage_def Let_def)

lemma getRollState_modifiers:
  "getRollState (eventToAdvantage ev) =
     (if truthy (advantage (eventToAdvantage ev)) then Some ''highest''
      else if truthy (disadvantage (eventToAdvantage ev)) then Some ''lowest''
      else None)"
  by (subst getRollState.simps) (simp add: eventToAdvantage_fields)

lemma getRollState_unfold:
  "getRollState rq =
     (if truthyStr (rollState rq) then rollState rq
      else if truthy (advantage rq) \<or> truthy (adv rq) then Some ''highest''
      else if truthy (disadvantage rq) \<or> truthy (disadv rq) then Some ''lowest''
      else (case event rq of
              None \<Rightarrow> None
            | Some e \<Rightarrow>
                if shiftKey e then Some ''highest''
                else if ctrlKey e \<or> metaKey e then Some ''lowest''
                else None))"
  by (subst getRollState.simps)
     (auto simp: getRollState_modifiers Let_def eventToAdvantage_truthy split: option.splits)

text \<open>
  Claim C6. A supplied (non-empty) roll state is returned unchanged whatever the flags and
  the event are. Without one, an advantage flag (\<open>advantage\<close> or \<open>adv\<close>) gives
  \<open>highest\<close>; else a disadvantage flag gives \<open>lowest\<close>; else an event is translated by
  \<open>eventToAdvantage\<close> and resolved again, which gives \<open>highest\<close> for the shift key,
  \<open>lowest\<close> for the control or meta key and \<open>null\<close> for neither; else the result is
  \<open>null\<close>.
\<close>

theorem getRollState_precedence:
  "(rollState rq = Some s \<and> s \<noteq> [] \<longrightarrow> getRollState rq = Some s)
   \<and> (\<not> truthyStr (rollState rq) \<longrightarrow>
        (truthy (advantage rq) \<or> truthy (adv rq) \<longrightarrow> getRollState rq = Some ''highest'')
        \<and> (\<not> (truthy (advantage rq) \<or> truthy (adv rq)) \<longrightarrow>
             (truthy (disadvantage rq) \<or> truthy (disadv rq) \<longrightarrow> getRollState rq = Some ''lowest'')
             \<and> (\<not> (truthy (disadvantage rq) \<or> truthy (disadv rq)) \<longrightarrow>
                  (event rq = None \<longrightarrow> getRollState rq = None)
                  \<and> (\<forall>e. event rq = Some e \<longrightarrow>
                        getRollState rq = getRollState (eventToAdvantage (Some e))
                        \<and> getRollState rq =
                            (if shiftKey e then Some ''highest''
                             else if ctrlKey e \<or> metaKey e then Some ''lowest''
                             else None)))))"
  by (auto simp: getRollState_unfold [of rq] getRollState_modifiers eventToAdvantage_truthy)

text \<open>
  The example of the specification, an explicit state together with an advantage flag, and
  one request for each later rule.
\<close>

theorem getRollState_precedence_witness:
  "getRollState \<lparr> rollState = Some ''lowest'', event = None, advantage = FBool True,
                   disadvantage = FNull, adv = FNull, disadv = FNull \<rparr> = Some ''lowest''
   \<and> getRollState \<lparr> rollState = None,
                     event = Some \<lparr> shiftKey = False, ctrlKey = True, metaKey = False \<rparr>,
                     advantage = FNull, disadvantage = FNull, adv = FBool True,
                     disadv = FBool True \<rparr> = Some ''highest''
   \<and> getRollState \<lparr> rollState = None,
                     event = Some \<lparr> shiftKey = True, ctrlKey = False, metaKey = False \<rparr>,
                     advantage = FBool False, disadvantage = FNum 1, adv = FNull,
                     disadv = FNull \<rparr> = Some ''lowest''
   \<and> getRollState \<lparr> rollState = None,
                     event = Some \<lparr> shiftKey = True, ctrlKey = True, metaKey = False \<rparr>,
                     advantage = FNull, disadvantage = FNull, adv = FNull,
                     disadv = FNull \<rparr> = Some ''highest''
   \<and> getRollState \<lparr> rollState = None,
                     event = Some \<lparr> shiftKey = False, ctrlKey = False, metaKey = True \<rparr>,
                     advantage = FNull, disadvantage = FNull, adv = FNull,
                     disadv = FNull \<rparr> = Some ''lowest''
   \<and> getRollState \<lparr> rollState = None, event = None, advantage = FNull, disadvantage = FNull,
                     adv = FNull, disadv = FNull \<rparr> = None"
proof (intro conjI)
  show "getRollState \<lparr> rollState = Some ''lowest'', event = None, advantage = FBool True,
                     disadvantage = FNull, adv = FNull, disadv = FNull \<rparr> = Some ''lowest''"
    using getRollState_precedence [of "\<lparr> rollState = Some ''lowest'', event = None,
        advantage = FBool True, disadvantage = FNull, adv = FNull, disadv = FNull \<rparr>" "''lowest''"]
    by auto
next
  show "getRollState \<lparr> rollState = None,
                     event = Some \<lparr> shiftKey = False, ctrlKey = True, metaKey = False \<rparr>,
                     advantage = FNull, disadvantage = FNull, adv = FBool True,
                     disadv = FBool True \<rparr> = Some ''highest''"
    using getRollState_precedence [of "\<lparr> rollState = None,
        event = Some \<lparr> shiftKey = False, ctrlKey = True, metaKey = False \<rparr>,
        advantage = FNull, disadvantage = FNull, adv = FBool True, disadv = FBool True \<rparr>"]
    by auto
next
  show "getRollState \<lparr> rollState = None,
                     event = Some \<lparr> shiftKey = True, ctrlKey = False, metaKey = False \<rparr>,
                     advantage = FBool False, disadvantage = FNum 1, adv = FNull,
                     disadv = FNull \<rparr> = Some ''lowest''"
    using getRollState_precedence [of "\<lparr> rollState = None,
        event = Some \<lparr> shiftKey = True, ctrlKey = False, metaKey = False \<rparr>,
        advantage = FBool False, disadvantage = FNum 1, adv = FNull, disadv = FNull \<rparr>"]
    by auto
next
  show "getRollState \<lparr> rollState = None,
                     event = Some \<lparr> shiftKey = True, ctrlKey = True, metaKey = False \<rparr>,
                     advantage = FNull, disadvantage = FNull, adv = FNull,
                     disadv = FNull \<rparr> = Some ''highest''"
    using getRollState_precedence [of "\<lparr> rollState = None,
        event = Some \<lparr> shiftKey = True, ctrlKey = True, metaKey = False \<rparr>,
        advantage = FNull, disadvantage = FNull, adv = FNull, disadv = FNull \<rparr>"]
    by auto
next
  show "getRollState \<lparr> rollState = None,
                     event = Some \<lparr> shiftKey = False, ctrlKey = False, metaKey = True \<rparr>,
                     advantage = FNull, disadvantage = FNull, adv = FNull,
                     disadv = FNull \<rparr> = Some ''lowest''"
    using getRollState_precedence [of "\<lparr> rollState = None,
        event = Some \<lparr> shiftKey = False, ctrlKey = False, metaKey = True \<rparr>,
        advantage = FNull, disadvantage = FNull, adv = FNull, disadv = FNull \<rparr>"]
    by auto
next
  show "getRollState \<lparr> rollState = None, event = None, advantage = FNull, disadvantage = FNull,
                     adv = FNull, disadv = FNull \<rparr> = None"
    using getRollState_precedence [of "\<lparr> rollState = None, event = None, advantage = FNull,
        disadvantage = FNull, adv = FNull, disadv = FNull \<rparr>"]
    by auto
qed


section \<open>Strings and decimal numbers\<close>

text \<open>\<open>Number.prototype.toString\<close> on an integer: the decimal digits, after a minus sign if negative.\<close>

definition digitChar :: "nat \<Rightarrow> char" where
  "digitChar d = ''0123456789'' ! d"

function showNat :: "nat \<Rightarrow> string" where
  "showNat n = (if n < 10 then [digitChar n] else showNat (n div 10) @ [digitChar (n mod 10)])"
  by pat_completeness auto
termination
  by (relation "measure id") auto

declare showNat.simps [simp del]

definition showInt :: "int \<Rightarrow> string" where
  "showInt i = (if i < 0 then CHR ''-'' # showNat (nat (- i)) else showNat (nat i))"

fun joinWith :: "string \<Rightarrow> string list \<Rightarrow> string" where
  "joinWith sep [] = []"
| "joinWith sep [x] = x"
| "joinWith sep (x # y # ys) = x @ sep @ joinWith sep (y # ys)"

definition isDigit :: "char \<Rightarrow> bool" where
  "isDigit c = (c \<in> set ''0123456789'')"

text \<open>Reading a decimal number and splitting a string at a separator, for the sample engines below.\<close>

fun splitOn :: "char \<Rightarrow> string \<Rightarrow> string list" where
  "splitOn sep [] = [[]]"
| "splitOn sep (c # cs) =
     (case splitOn sep cs of
        [] \<Rightarrow> [[c]]
      | p # ps \<Rightarrow> if c = sep then [] # p # ps else (c # p) # ps)"

definition readNat :: "string \<Rightarrow> nat" where
  "readNat s = foldl (\<lambda>a c. 10 * a + (of_char c - 48)) 0 s"

definition allDigits :: "string \<Rightarrow> bool" where
  "allDigits s = (s \<noteq> [] \<and> list_all isDigit s)"

section \<open>The d20 term: Utils.findD20Term and Utils.parseD20Formula\<close>

text \<open>
  Rolls and terms are objects of the roll engine, told apart only by the properties they
  carry. A node holds the properties the two functions read or write: \<open>faces\<close> (absent on
  anything that is not a die), \<open>number\<close> and \<open>modifiers\<close> (read on the d20 term only),
  \<open>terms\<close> and \<open>rolls\<close> (each absent or an array of nodes) and the cached \<open>_formula\<close>.
  A primitive entry of \<open>terms\<close> (a number or a string) is a node without \<open>faces\<close>,
  \<open>terms\<close> and \<open>rolls\<close>.
\<close>

datatype node =
  Node (n_faces: "int option") (n_number: int) (n_modifiers: "string list")
       (n_terms: "node list option") (n_rolls: "node list option") (n_formula: "string option")

text \<open>\<open>term.terms ?? term.rolls\<close> is truthy as soon as one of the two is present.\<close>

definition hasChildren :: "node \<Rightarrow> bool" where
  "hasChildren t = (n_terms t \<noteq> None \<or> n_rolls t \<noteq> None)"

text \<open>
  \<open>findD20Term\<close> of a present roll: the loop runs over \<open>d20Roll.terms ?? d20Roll.rolls ?? []\<close>,
  and falling off its end returns \<open>undefined\<close>.
\<close>

fun findD20Term :: "node \<Rightarrow> node option"
  and findD20Loop :: "node list \<Rightarrow> node option" where
  "findD20Term (Node f k m (Some ts) rs c) = findD20Loop ts"
| "findD20Term (Node f k m None (Some rs) c) = findD20Loop rs"
| "findD20Term (Node f k m None None c) = None"
| "findD20Loop [] = None"
| "findD20Loop (t # ts) =
     (if n_faces t = Some 20 then Some t
      else if hasChildren t then
        (case findD20Term t of Some innerResult \<Rightarrow> Some innerResult | None \<Rightarrow> findD20Loop ts)
      else findD20Loop ts)"

text \<open>\<open>if (!d20Roll) return null\<close>, for a roll that may be absent.\<close>

definition findD20TermOpt :: "node option \<Rightarrow> node option" where
  "findD20TermOpt d20Roll = (case d20Roll of None \<Rightarrow> None | Some r \<Rightarrow> findD20Term r)"

text \<open>The array searched at a node: \<open>terms ?? rolls ?? []\<close>.\<close>

definition children :: "node \<Rightarrow> node list" where
  "children n = (case n_terms n of Some ts \<Rightarrow> ts
                 | None \<Rightarrow> (case n_rolls n of Some rs \<Rightarrow> rs | None \<Rightarrow> []))"

text \<open>
  The order of the search: each entry of the array searched, followed by what the search
  reaches below that entry.
\<close>

fun below :: "node \<Rightarrow> node list"
  and belowList :: "node list \<Rightarrow> node list" where
  "below (Node f k m (Some ts) rs c) = belowList ts"
| "below (Node f k m None (Some rs) c) = belowList rs"
| "below (Node f k m None None c) = []"
| "belowList [] = []"
| "belowList (t # ts) = t # below t @ belowList ts"

lemma below_children: "below n = belowList (children n)"
  by (cases n rule: below.cases(1)) (auto simp: children_def)

lemma below_leaf: "\<not> hasChildren t \<Longrightarrow> below t = []"
  by (cases t rule: below.cases(1)) (auto simp: hasChildren_def)

lemma find_app:
  "find P (xs @ ys) = (case find P xs of Some x \<Rightarrow> Some x | None \<Rightarrow> find P ys)"
  by (induction xs) auto

lemma findD20_is_first:
  "findD20Term n = find (\<lambda>t. n_faces t = Some 20) (below n)"
  "findD20Loop ns = find (\<lambda>t. n_faces t = Some 20) (belowList ns)"
proof (induction n and ns rule: findD20Term_findD20Loop.induct)
  case (5 t ts)
  show ?case
  proof (cases "n_faces t = Some 20")
    case True
    then show ?thesis by simp
  next
    case nf: False
    show ?thesis
    proof (cases "hasChildren t")
      case True
      then show ?thesis
        using nf 5 by (simp add: find_app split: option.splits)
    next
      case False
      then show ?thesis
        using nf 5 by (simp add: below_leaf)
    qed
  qed
qed simp_all

text \<open>
  Every node nested in a node, depth first: the entries of \<open>terms\<close> and the entries of
  \<open>rolls\<close>, each followed by what is nested in it. This is the tree of the expression,
  whichever array holds a sub-expression.
\<close>

fun nested :: "node \<Rightarrow> node list"
  and nestedList :: "node list \<Rightarrow> node list" where
  "nested (Node f k m (Some ts) (Some rs) c) = nestedList ts @ nestedList rs"
| "nested (Node f k m (Some ts) None c) = nestedList ts"
| "nested (Node f k m None (Some rs) c) = nestedList rs"
| "nested (Node f k m None None c) = []"
| "nestedList [] = []"
| "nestedList (t # ts) = t # nested t @ nestedList ts"

text \<open>A node that does not carry both arrays.\<close>

definition oneArray :: "node \<Rightarrow> bool" where
  "oneArray n = (n_terms n = None \<or> n_rolls n = None)"

lemma nested_below:
  "oneArray n \<Longrightarrow> list_all oneArray (nested n) \<Longrightarrow> nested n = below n"
  "list_all oneArray (nestedList ns) \<Longrightarrow> nestedList ns = belowList ns"
  by (induction n and ns rule: nested_nestedList.induct) (auto simp: oneArray_def)

text \<open>
  Claim C9, as the code has it. The search returns the first node with \<open>faces === 20\<close> in the
  depth-first order that takes, at each node, the entries of \<open>terms\<close>, and the entries of
  \<open>rolls\<close> only when the node has no \<open>terms\<close>. It returns nothing exactly when no node in
  that order has 20 faces, and nothing for an absent roll. For an expression in which no node
  carries both arrays this is the first node with 20 faces of the whole tree. The function
  only reads: its value is the term found.
\<close>

theorem findD20Term_first:
  "findD20TermOpt None = None
   \<and> findD20TermOpt (Some r) = find (\<lambda>t. n_faces t = Some 20) (below r)
   \<and> (findD20TermOpt (Some r) = None) = (\<not> (\<exists>t\<in>set (below r). n_faces t = Some 20))
   \<and> (oneArray r \<and> list_all oneArray (nested r) \<longrightarrow>
        findD20TermOpt (Some r) = find (\<lambda>t. n_faces t = Some 20) (nested r))"
  by (auto simp: findD20TermOpt_def findD20_is_first(1) find_None_iff nested_below(1))

text \<open>
  A d20 inside a nested roll, after a d6 and a number: \<open>{terms: [1d6, 5, {rolls: [{terms:
  [2d20kh]}]}]}\<close>. No node carries both arrays.
\<close>

theorem findD20Term_first_witness:
  "oneArray
     (Node None 0 [] (Some [Node (Some 6) 1 [] None None None,
                            Node None 0 [] None None None,
                            Node None 0 [] None
                              (Some [Node None 0 []
                                       (Some [Node (Some 20) 2 [''kh''] None None None])
                                       None None]) None])
        None None)
   \<and> list_all oneArray
       (nested
         (Node None 0 [] (Some [Node (Some 6) 1 [] None None None,
                                Node None 0 [] None None None,
                                Node None 0 [] None
                                  (Some [Node None 0 []
                                           (Some [Node (Some 20) 2 [''kh''] None None None])
                                           None None]) None])
            None None))
   \<and> findD20TermOpt
       (Some (Node None 0 [] (Some [Node (Some 6) 1 [] None None None,
                                    Node None 0 [] None None None,
                                    Node None 0 [] None
                                      (Some [Node None 0 []
                                               (Some [Node (Some 20) 2 [''kh''] None None None])
                                               None None]) None])
                None None)) =
     Some (Node (Some 20) 2 [''kh''] None None None)"
proof -
  let ?r = "Node None 0 [] (Some [Node (Some 6) 1 [] None None None,
                                  Node None 0 [] None None None,
                                  Node None 0 [] None
                                    (Some [Node None 0 []
                                             (Some [Node (Some 20) 2 [''kh''] None None None])
                                             None None]) None])
              None None"
  have a: "oneArray ?r" "list_all oneArray (nested ?r)"
    by (simp_all add: oneArray_def)
  have b: "find (\<lambda>t. n_faces t = Some 20) (nested ?r) =
             Some (Node (Some 20) 2 [''kh''] None None None)"
    by simp
  show ?thesis
    using findD20Term_first [of ?r] a b by simp
qed

text \<open>
  Claim C9 as stated searches the nested sub-expressions. A node that carries both arrays is
  searched through \<open>terms\<close> only: in \<open>{terms: [{terms: [x], rolls: [{terms: [1d20]}]}]}\<close> the
  d20 is nested in the expression, and the search returns nothing.
\<close>

theorem findD20Term_first_counterexample:
  "find (\<lambda>t. n_faces t = Some 20)
     (nested
       (Node None 0 [] (Some [Node None 0 [] (Some [Node None 0 [] None None None])
                                (Some [Node None 0 []
                                         (Some [Node (Some 20) 1 [] None None None])
                                         None None]) None])
          None None)) =
     Some (Node (Some 20) 1 [] None None None)
   \<and> findD20TermOpt
       (Some (Node None 0 [] (Some [Node None 0 [] (Some [Node None 0 [] None None None])
                                      (Some [Node None 0 []
                                               (Some [Node (Some 20) 1 [] None None None])
                                               None None]) None])
                None None)) = None"
  by (simp add: findD20TermOpt_def hasChildren_def)

subsection \<open>Normalising the d20 term\<close>

text \<open>
  The term found is an object inside the roll, and \<open>parseD20Formula\<close> assigns to its
  \<open>number\<close> and \<open>modifiers\<close>: the roll changes at the place where the search found the term.
  \<open>updD20Term f\<close> rebuilds the roll with \<open>f\<close> applied at that place, following the search.
\<close>

fun updD20Term :: "(node \<Rightarrow> node) \<Rightarrow> node \<Rightarrow> node"
  and updD20Loop :: "(node \<Rightarrow> node) \<Rightarrow> node list \<Rightarrow> node list" where
  "updD20Term g (Node f k m (Some ts) rs c) = Node f k m (Some (updD20Loop g ts)) rs c"
| "updD20Term g (Node f k m None (Some rs) c) = Node f k m None (Some (updD20Loop g rs)) c"
| "updD20Term g (Node f k m None None c) = Node f k m None None c"
| "updD20Loop g [] = []"
| "updD20Loop g (t # ts) =
     (if n_faces t = Some 20 then g t # ts
      else if hasChildren t \<and> findD20Term t \<noteq> None then updD20Term g t # ts
      else t # updD20Loop g ts)"

text \<open>\<open>d20Term.number = 1\<close> and the removal of \<open>kh\<close> and \<open>kl\<close> from \<open>d20Term.modifiers\<close>.\<close>

fun normalizeD20 :: "node \<Rightarrow> node" where
  "normalizeD20 (Node f k m ts rs c) =
     Node f 1 (filter (\<lambda>m. m \<notin> set [''kh'', ''kl'']) m) ts rs c"

text \<open>\<open>roll._formula = undefined\<close>.\<close>

fun clearFormula :: "node \<Rightarrow> node" where
  "clearFormula (Node f k m ts rs c) = Node f k m ts rs None"

record parsed =
  p_formula :: string
  p_numRolls :: "int option"
  p_rollState :: "string option"

datatype rollInput = FormulaString string | RollObject node

text \<open>
  \<open>parseD20Formula(roll)\<close>. The engine's constructor \<open>new Roll(string)\<close> and its getter
  \<open>roll.formula\<close> are parameters. The result is paired with the roll as the call leaves it.
\<close>

definition parseD20Formula ::
  "(string \<Rightarrow> node) \<Rightarrow> (node \<Rightarrow> string) \<Rightarrow> rollInput \<Rightarrow> parsed \<times> node" where
  "parseD20Formula newRoll formula rollIn =
     (let roll = (case rollIn of FormulaString s \<Rightarrow> newRoll s | RollObject r \<Rightarrow> r)
      in case findD20TermOpt (Some roll) of
           None \<Rightarrow> (\<lparr> p_formula = formula roll, p_numRolls = None, p_rollState = None \<rparr>, roll)
         | Some d20Term \<Rightarrow>
             (let numRolls = n_number d20Term;
                  rollState = (if ''kh'' \<in> set (n_modifiers d20Term) then Some ''highest''
                               else if ''kl'' \<in> set (n_modifiers d20Term) then Some ''lowest''
                               else None);
                  roll' = updD20Term normalizeD20 (clearFormula roll)
              in (\<lparr> p_formula = formula roll', p_numRolls = Some numRolls,
                     p_rollState = rollState \<rparr>, roll')))"

lemma hasChildren_upd [simp]:
  "hasChildren (updD20Term g t) = hasChildren t"
  by (cases t rule: below.cases(1)) (auto simp: hasChildren_def)

lemma n_faces_upd [simp]: "n_faces (updD20Term g t) = n_faces t"
  by (cases t rule: below.cases(1)) auto

lemma n_formula_upd [simp]: "n_formula (updD20Term g t) = n_formula t"
  by (cases t rule: below.cases(1)) auto

lemma find_upd:
  assumes "\<And>t. n_faces t = Some 20 \<Longrightarrow> n_faces (g t) = Some 20"
  shows "findD20Term (updD20Term g n) = map_option g (findD20Term n)"
    and "findD20Loop (updD20Loop g ns) = map_option g (findD20Loop ns)"
proof (induction n and ns rule: findD20Term_findD20Loop.induct)
  case (5 t ts)
  show ?case
  proof (cases "n_faces t = Some 20")
    case True
    then show ?thesis using assms by simp
  next
    case nf: False
    show ?thesis
    proof (cases "hasChildren t")
      case True
      then show ?thesis
        using nf 5 by (auto split: option.splits)
    next
      case False
      then show ?thesis
        using nf 5 by simp
    qed
  qed
qed simp_all

lemma upd_upd:
  assumes "\<And>t. n_faces t = Some 20 \<Longrightarrow> n_faces (g t) = Some 20"
  shows "updD20Term g (updD20Term g n) = updD20Term (g \<circ> g) n"
    and "updD20Loop g (updD20Loop g ns) = updD20Loop (g \<circ> g) ns"
proof (induction n and ns rule: findD20Term_findD20Loop.induct)
  case (5 t ts)
  show ?case
  proof (cases "n_faces t = Some 20")
    case True
    then show ?thesis using assms by simp
  next
    case nf: False
    show ?thesis
    proof (cases "hasChildren t \<and> findD20Term t \<noteq> None")
      case True
      then show ?thesis
        using nf 5 find_upd(1) [where g = g and n = t, OF assms] by auto
    next
      case False
      then show ?thesis
        using nf 5 by auto
    qed
  qed
qed simp_all

lemma normalizeD20_faces: "n_faces (normalizeD20 t) = n_faces t"
  by (cases t) simp

lemma normalizeD20_idem: "normalizeD20 \<circ> normalizeD20 = normalizeD20"
proof
  fix t show "(normalizeD20 \<circ> normalizeD20) t = normalizeD20 t"
    by (cases t) simp
qed

lemma normalizeD20_fields:
  "n_number (normalizeD20 t) = 1"
  "''kh'' \<notin> set (n_modifiers (normalizeD20 t))"
  "''kl'' \<notin> set (n_modifiers (normalizeD20 t))"
  by (cases t; simp)+

lemma findD20Term_clearFormula [simp]: "findD20Term (clearFormula r) = findD20Term r"
  by (cases r rule: below.cases(1)) auto

lemma clearFormula_idem: "n_formula r = None \<Longrightarrow> clearFormula r = r"
  by (cases r) simp

lemma n_formula_clearFormula [simp]: "n_formula (clearFormula r) = None"
  by (cases r) simp

lemma parse_found:
  assumes "findD20Term r = Some t"
  shows "parseD20Formula newRoll formula (RollObject r) =
           (\<lparr> p_formula = formula (updD20Term normalizeD20 (clearFormula r)),
               p_numRolls = Some (n_number t),
               p_rollState = (if ''kh'' \<in> set (n_modifiers t) then Some ''highest''
                              else if ''kl'' \<in> set (n_modifiers t) then Some ''lowest''
                              else None) \<rparr>,
            updD20Term normalizeD20 (clearFormula r))"
  using assms by (simp add: parseD20Formula_def findD20TermOpt_def Let_def)

lemma parse_not_found:
  assumes "findD20Term r = None"
  shows "parseD20Formula newRoll formula (RollObject r) =
           (\<lparr> p_formula = formula r, p_numRolls = None, p_rollState = None \<rparr>, r)"
  using assms by (simp add: parseD20Formula_def findD20TermOpt_def)

lemma find_normalized:
  "findD20Term (updD20Term normalizeD20 (clearFormula r)) = map_option normalizeD20 (findD20Term r)"
  using find_upd(1) [where g = normalizeD20 and n = "clearFormula r"]
  by (simp add: normalizeD20_faces)

lemma normalized_fixed:
  "updD20Term normalizeD20 (clearFormula (updD20Term normalizeD20 (clearFormula r))) =
   updD20Term normalizeD20 (clearFormula r)"
proof -
  have "clearFormula (updD20Term normalizeD20 (clearFormula r)) =
        updD20Term normalizeD20 (clearFormula r)"
    by (rule clearFormula_idem) simp
  moreover have "updD20Term normalizeD20 (updD20Term normalizeD20 (clearFormula r)) =
                 updD20Term normalizeD20 (clearFormula r)"
    using upd_upd(1) [where g = normalizeD20 and n = "clearFormula r"]
    by (simp add: normalizeD20_faces normalizeD20_idem)
  ultimately show ?thesis by simp
qed


text \<open>
  Claim C8. Applied to the roll it has normalised, \<open>parseD20Formula\<close> returns the same
  formula, no \<open>rollState\<close>, and \<open>numRolls = 1\<close> (no \<open>numRolls\<close> when there is no d20 term), and
  leaves the roll as it is. Applied to the formula string it has returned, it returns the same
  again when the engine reads that string back as the normalised roll (up to the cached
  formula) and prints what it has read.
\<close>

theorem parseD20Formula_idempotent:
  "parseD20Formula newRoll formula (RollObject r) = (res, r') \<longrightarrow>
     parseD20Formula newRoll formula (RollObject r') =
       (\<lparr> p_formula = p_formula res,
           p_numRolls = (if findD20Term r = None then None else Some 1),
           p_rollState = None \<rparr>, r')
     \<and> (clearFormula (newRoll (p_formula res)) = r'
          \<and> formula (newRoll (p_formula res)) = p_formula res \<longrightarrow>
        fst (parseD20Formula newRoll formula (FormulaString (p_formula res))) =
          \<lparr> p_formula = p_formula res,
            p_numRolls = (if findD20Term r = None then None else Some 1),
            p_rollState = None \<rparr>)"
proof (intro impI conjI)
  assume p: "parseD20Formula newRoll formula (RollObject r) = (res, r')"
  show "parseD20Formula newRoll formula (RollObject r') =
       (\<lparr> p_formula = p_formula res,
           p_numRolls = (if findD20Term r = None then None else Some 1),
           p_rollState = None \<rparr>, r')"
  proof (cases "findD20Term r")
    case None
    then have "res = \<lparr> p_formula = formula r, p_numRolls = None, p_rollState = None \<rparr>"
      and "r' = r"
      using p parse_not_found [OF None, of newRoll formula] by auto
    then show ?thesis
      using None parse_not_found [OF None, of newRoll formula] by simp
  next
    case (Some t)
    have r': "r' = updD20Term normalizeD20 (clearFormula r)"
      and res: "p_formula res = formula r'"
      using p parse_found [OF Some, of newRoll formula] by auto
    have f: "findD20Term r' = Some (normalizeD20 t)"
      using Some by (simp add: r' find_normalized)
    have fixed: "updD20Term normalizeD20 (clearFormula r') = r'"
      by (simp add: r' normalized_fixed)
    show ?thesis
      using parse_found [OF f, of newRoll formula] Some
      by (simp add: fixed res normalizeD20_fields)
  qed
next
  assume p: "parseD20Formula newRoll formula (RollObject r) = (res, r')"
  assume e: "clearFormula (newRoll (p_formula res)) = r'
             \<and> formula (newRoll (p_formula res)) = p_formula res"
  let ?q = "newRoll (p_formula res)"
  have q: "findD20Term ?q = findD20Term r'"
    using e findD20Term_clearFormula [of ?q] by simp
  have s: "parseD20Formula newRoll formula (FormulaString (p_formula res)) =
           parseD20Formula newRoll formula (RollObject ?q)"
    by (simp add: parseD20Formula_def)
  show "fst (parseD20Formula newRoll formula (FormulaString (p_formula res))) =
          \<lparr> p_formula = p_formula res,
            p_numRolls = (if findD20Term r = None then None else Some 1),
            p_rollState = None \<rparr>"
  proof (cases "findD20Term r")
    case None
    then have "r' = r"
      using p parse_not_found [OF None, of newRoll formula] by auto
    with q None have "findD20Term ?q = None" by simp
    then show ?thesis
      using None e parse_not_found [of ?q newRoll formula] by (simp add: s)
  next
    case (Some t)
    have r': "r' = updD20Term normalizeD20 (clearFormula r)"
      and res: "p_formula res = formula r'"
      using p parse_found [OF Some, of newRoll formula] by auto
    have f: "findD20Term ?q = Some (normalizeD20 t)"
      using Some q by (simp add: r' find_normalized)
    have "updD20Term normalizeD20 (clearFormula ?q) = updD20Term normalizeD20 r'"
      using e by simp
    also have "\<dots> = updD20Term normalizeD20 (clearFormula r')"
      by (simp add: r' clearFormula_idem)
    also have "\<dots> = r'"
      by (simp add: r' normalized_fixed)
    finally have fixed: "updD20Term normalizeD20 (clearFormula ?q) = r'" .
    have "fst (parseD20Formula newRoll formula (FormulaString (p_formula res))) =
            \<lparr> p_formula = formula r', p_numRolls = Some 1, p_rollState = None \<rparr>"
      unfolding s using parse_found [OF f, of newRoll formula]
      by (simp add: fixed normalizeD20_fields)
    then show ?thesis
      using Some by (simp add: res)
  qed
qed

subsection \<open>A sample formula getter\<close>

text \<open>
  The theorems above hold for every constructor and getter of the engine. To run
  \<open>parseD20Formula\<close> on a concrete roll, \<open>sampleFormula\<close> is a getter that returns the cached
  \<open>_formula\<close> when there is one and otherwise writes the dice among the terms as
  \<open>number d faces modifiers\<close>, joined by \<open>+\<close>; \<open>sampleNewRoll\<close> reads dice without
  modifiers separated by \<open>+\<close> and caches the formula it was given.
\<close>

fun sampleTerm :: "node \<Rightarrow> string" where
  "sampleTerm (Node f k m ts rs c) =
     (case f of Some fa \<Rightarrow> showInt k @ ''d'' @ showInt fa @ concat m | None \<Rightarrow> [])"

definition sampleFormula :: "node \<Rightarrow> string" where
  "sampleFormula r =
     (case n_formula r of
        Some c \<Rightarrow> c
      | None \<Rightarrow> joinWith '' + '' (map sampleTerm (children r)))"

definition sampleDie :: "string \<Rightarrow> node" where
  "sampleDie p =
     (case splitOn CHR ''d'' p of
        [a, b] \<Rightarrow> if allDigits a \<and> allDigits b
                   then Node (Some (int (readNat b))) (int (readNat a)) [] None None None
                   else Node None 0 [] None None None
      | _ \<Rightarrow> Node None 0 [] None None None)"

definition sampleNewRoll :: "string \<Rightarrow> node" where
  "sampleNewRoll s =
     Node None 0 []
       (Some (map sampleDie (splitOn CHR ''+'' (filter (\<lambda>c. c \<noteq> CHR '' '') s))))
       None (Some s)"


text \<open>
  Normalising \<open>2d20kh + 1d4\<close> a second time changes nothing and reports one roll, on the
  roll as well as on the string \<open>1d20 + 1d4\<close>.
\<close>

theorem parseD20Formula_idempotent_witness:
  "parseD20Formula sampleNewRoll sampleFormula
     (RollObject (Node None 0 [] (Some [Node (Some 20) 2 [''kh''] None None None,
                                        Node (Some 4) 1 [] None None None])
                    None (Some ''2d20kh + 1d4''))) =
     (\<lparr> p_formula = ''1d20 + 1d4'', p_numRolls = Some 2, p_rollState = Some ''highest'' \<rparr>,
      Node None 0 [] (Some [Node (Some 20) 1 [] None None None,
                            Node (Some 4) 1 [] None None None]) None None)
   \<and> parseD20Formula sampleNewRoll sampleFormula
       (RollObject (Node None 0 [] (Some [Node (Some 20) 1 [] None None None,
                                          Node (Some 4) 1 [] None None None]) None None)) =
       (\<lparr> p_formula = ''1d20 + 1d4'', p_numRolls = Some 1, p_rollState = None \<rparr>,
        Node None 0 [] (Some [Node (Some 20) 1 [] None None None,
                              Node (Some 4) 1 [] None None None]) None None)
   \<and> clearFormula (sampleNewRoll ''1d20 + 1d4'') =
       Node None 0 [] (Some [Node (Some 20) 1 [] None None None,
                             Node (Some 4) 1 [] None None None]) None None
   \<and> sampleFormula (sampleNewRoll ''1d20 + 1d4'') = ''1d20 + 1d4''
   \<and> fst (parseD20Formula sampleNewRoll sampleFormula (FormulaString ''1d20 + 1d4'')) =
       \<lparr> p_formula = ''1d20 + 1d4'', p_numRolls = Some 1, p_rollState = None \<rparr>"
proof -
  let ?t = "Node (Some 20) 2 [''kh''] None None None"
  let ?r = "Node None 0 [] (Some [?t, Node (Some 4) 1 [] None None None]) None
              (Some ''2d20kh + 1d4'')"
  let ?r' = "Node None 0 [] (Some [Node (Some 20) 1 [] None None None,
                                  Node (Some 4) 1 [] None None None]) None None"
  let ?res = "\<lparr> p_formula = ''1d20 + 1d4'', p_numRolls = Some 2, p_rollState = Some ''highest'' \<rparr>"
  have c: "sampleFormula ?r' = ''1d20 + 1d4''"
    by code_simp
  have p: "parseD20Formula sampleNewRoll sampleFormula (RollObject ?r) = (?res, ?r')"
    by (simp add: parseD20Formula_def findD20TermOpt_def c)
  have f: "findD20Term ?r \<noteq> None"
    by simp
  have e1: "clearFormula (sampleNewRoll ''1d20 + 1d4'') = ?r'"
    by code_simp
  have e2: "sampleFormula (sampleNewRoll ''1d20 + 1d4'') = ''1d20 + 1d4''"
    by code_simp
  show ?thesis
    using parseD20Formula_idempotent [of sampleNewRoll sampleFormula ?r ?res ?r'] p f e1 e2
    by simp
qed

section \<open>Critical damage: the filter of ItemUtils.getBaseCritRoll\<close>

text \<open>
  The filter is the global replacement of the matches of
  \<^verbatim>\<open>/[+-]+\s*(?:@[a-zA-Z0-9.]+|[0-9]+(?![Dd]))/g\<close> by the empty string. The expression uses
  character classes, greedy repetition of a class, sequence, alternative and a negative
  lookahead of one character; \<open>rx\<close> has exactly these forms. Strings are lists of 8-bit
  characters.
\<close>

datatype rx =
  Cls "char \<Rightarrow> bool"
  | StarCls "char \<Rightarrow> bool"
  | PlusCls "char \<Rightarrow> bool"
  | NegLook "char \<Rightarrow> bool"
  | Seq rx rx
  | Alt rx rx

text \<open>
  A backtracking matcher, as the regular expression engine of the language is specified:
  \<open>rxMatch r s k\<close> matches \<open>r\<close> at the start of \<open>s\<close> and hands the rest of the string to the
  continuation \<open>k\<close>; when the continuation fails the matcher tries its next choice. A greedy
  repetition tries the longest run first and gives characters back one at a time; an
  alternative tries its left side first.
\<close>

fun rxMatch :: "rx \<Rightarrow> string \<Rightarrow> (string \<Rightarrow> string option) \<Rightarrow> string option" where
  "rxMatch (Cls p) s k = (case s of [] \<Rightarrow> None | c # cs \<Rightarrow> if p c then k cs else None)"
| "rxMatch (StarCls p) s k =
     (case s of
        [] \<Rightarrow> k []
      | c # cs \<Rightarrow>
          if p c then (case rxMatch (StarCls p) cs k of Some r \<Rightarrow> Some r | None \<Rightarrow> k s)
          else k s)"
| "rxMatch (PlusCls p) s k =
     (case s of [] \<Rightarrow> None | c # cs \<Rightarrow> if p c then rxMatch (StarCls p) cs k else None)"
| "rxMatch (NegLook p) s k = (case s of [] \<Rightarrow> k [] | c # cs \<Rightarrow> if p c then None else k s)"
| "rxMatch (Seq a b) s k = rxMatch a s (\<lambda>s'. rxMatch b s' k)"
| "rxMatch (Alt a b) s k = (case rxMatch a s k of Some r \<Rightarrow> Some r | None \<Rightarrow> rxMatch b s k)"

definition isSign :: "char \<Rightarrow> bool" where
  "isSign c = (c \<in> set ''+-'')"

text \<open>
  \<^verbatim>\<open>\s\<close>, among the 8-bit characters: tab, line feed, vertical tab, form feed, carriage
  return, space and no-break space.
\<close>

definition isSpace :: "char \<Rightarrow> bool" where
  "isSpace c = (c \<in> set [CHR 0x09, CHR 0x0A, CHR 0x0B, CHR 0x0C, CHR 0x0D, CHR '' '', CHR 0xA0])"

definition isDataChar :: "char \<Rightarrow> bool" where
  "isDataChar c =
     (c \<in> set ''abcdefghijklmnopqrstuvwxyzABCDEFGHIJKLMNOPQRSTUVWXYZ0123456789.'')"

definition isD :: "char \<Rightarrow> bool" where
  "isD c = (c \<in> set ''Dd'')"

definition critRegex :: rx where
  "critRegex =
     Seq (PlusCls isSign)
       (Seq (StarCls isSpace)
          (Alt (Seq (Cls (\<lambda>c. c = CHR ''@'')) (PlusCls isDataChar))
               (Seq (PlusCls isDigit) (NegLook isD))))"

text \<open>The match of \<open>critRegex\<close> at the start of a string, as the rest of the string after it.\<close>

definition matchAt :: "string \<Rightarrow> string option" where
  "matchAt s = rxMatch critRegex s Some"

lemma rxMatch_length:
  "rxMatch r s k = Some rest \<Longrightarrow> \<exists>s'. k s' = Some rest \<and> length s' \<le> length s"
proof (induction r s k rule: rxMatch.induct)
  case (1 p s k)
  then show ?case by (cases s) (auto split: if_splits)
next
  case (2 p s k)
  show ?case
  proof (cases s)
    case Nil
    with 2 show ?thesis by auto
  next
    case (Cons c cs)
    show ?thesis
    proof (cases "p c")
      case True
      show ?thesis
      proof (cases "rxMatch (StarCls p) cs k")
        case None
        with 2 Cons True show ?thesis by auto
      next
        case (Some r)
        with 2(2) Cons True have "r = rest" by simp
        with 2(1) [OF Cons True] Some obtain s' where "k s' = Some rest" "length s' \<le> length cs"
          by blast
        with Cons show ?thesis by auto
      qed
    next
      case False
      with 2 Cons show ?thesis by auto
    qed
  qed
next
  case (3 p s k)
  show ?case
  proof (cases s)
    case Nil
    with 3 show ?thesis by simp
  next
    case (Cons c cs)
    with 3(2) have pc: "p c" and m: "rxMatch (StarCls p) cs k = Some rest"
      by (auto split: if_splits)
    from 3(1) [OF Cons pc m] Cons show ?thesis by auto
  qed
next
  case (4 p s k)
  then show ?case by (cases s) (auto split: if_splits)
next
  case (5 a b s k)
  from 5(3) have "rxMatch a s (\<lambda>s'. rxMatch b s' k) = Some rest" by simp
  from 5(2) [OF this] obtain s1 where s1: "rxMatch b s1 k = Some rest" "length s1 \<le> length s"
    by blast
  from 5(1) [OF s1(1)] obtain s2 where "k s2 = Some rest" "length s2 \<le> length s1"
    by blast
  with s1 show ?case by (meson le_trans)
next
  case (6 a b s k)
  then show ?case by (auto split: option.splits)
qed

lemma rxMatch_Plus_length:
  "rxMatch (PlusCls p) s k = Some rest \<Longrightarrow> \<exists>s'. k s' = Some rest \<and> length s' < length s"
proof (cases s)
  case Nil
  assume "rxMatch (PlusCls p) s k = Some rest"
  with Nil show ?thesis by simp
next
  case (Cons c cs)
  assume "rxMatch (PlusCls p) s k = Some rest"
  with Cons have "rxMatch (StarCls p) cs k = Some rest"
    by (auto split: if_splits)
  from rxMatch_length [OF this] Cons show ?thesis by auto
qed

lemma matchAt_shorter: "matchAt s = Some rest \<Longrightarrow> length rest < length s"
proof -
  assume "matchAt s = Some rest"
  then have "rxMatch (PlusCls isSign) s
               (\<lambda>s'. rxMatch (Seq (StarCls isSpace)
                        (Alt (Seq (Cls (\<lambda>c. c = CHR ''@'')) (PlusCls isDataChar))
                             (Seq (PlusCls isDigit) (NegLook isD)))) s' Some) = Some rest"
    by (simp add: matchAt_def critRegex_def)
  from rxMatch_Plus_length [OF this] obtain s1 where
    s1: "rxMatch (Seq (StarCls isSpace)
                        (Alt (Seq (Cls (\<lambda>c. c = CHR ''@'')) (PlusCls isDataChar))
                             (Seq (PlusCls isDigit) (NegLook isD)))) s1 Some = Some rest"
    and l1: "length s1 < length s"
    by blast
  from rxMatch_length [OF s1] obtain s2 where "Some s2 = Some rest" "length s2 \<le> length s1"
    by blast
  with l1 show ?thesis by simp
qed

text \<open>
  \<open>String.prototype.replace\<close> with a global expression and the empty replacement: the string
  is scanned from the left; a match is dropped and the scan goes on after it, a character at
  which nothing matches is kept.
\<close>

function critReplace :: "string \<Rightarrow> string" where
  "critReplace [] = []"
| "critReplace (c # cs) =
     (case matchAt (c # cs) of
        Some rest \<Rightarrow> critReplace rest
      | None \<Rightarrow> c # critReplace cs)"
  by pat_completeness auto
termination
  by (relation "measure length") (auto dest: matchAt_shorter)


section \<open>Critical damage: ItemUtils.getBaseCritRoll and ItemUtils.getCritRoll\<close>

text \<open>
  The roll engine is outside the repository. Of a roll the code reads the array \<open>terms\<close>; an
  entry is a number, a string or an object, and of an object the code reads and writes
  \<open>options\<close>. What else the engine keeps in a term and in a roll is left open (\<open>'t\<close>, \<open>'r\<close>).
\<close>

type_synonym opts = "(string \<times> string) list"

datatype 't rterm = RawNumber int | RawString string | TermObject "opts option" 't

record ('t, 'r) Roll =
  terms :: "'t rterm list"
  internals :: 'r

text \<open>
  The engine's operations are parameters: \<open>new Roll(formula)\<close>, the getters \<open>roll.formula\<close> and
  \<open>roll.total\<close>, \<open>roll.alter(multiply, add)\<close> and \<open>roll.evaluate({maximize})\<close>
  (\<open>roll.roll()\<close> is the evaluation without \<open>maximize\<close>). An evaluation draws from the state
  \<open>'g\<close> of the dice and returns the state it leaves.
\<close>

record ('t, 'r, 'g) engine =
  engNew :: "string \<Rightarrow> ('t, 'r) Roll"
  engFormula :: "('t, 'r) Roll \<Rightarrow> string"
  engAlter :: "int \<Rightarrow> int \<Rightarrow> ('t, 'r) Roll \<Rightarrow> ('t, 'r) Roll"
  engEvaluate :: "bool \<Rightarrow> ('t, 'r) Roll \<Rightarrow> 'g \<Rightarrow> ('t, 'r) Roll \<times> 'g"
  engTotal :: "('t, 'r) Roll \<Rightarrow> int"

text \<open>\<open>if (term.options) term.options = {}\<close>: only an object has options, and every object is truthy.\<close>

fun clearOptions :: "'t rterm \<Rightarrow> 't rterm" where
  "clearOptions (TermObject (Some os) x) = TermObject (Some []) x"
| "clearOptions t = t"

text \<open>\<open>getBaseCritRoll(baseFormula)\<close>; the empty string is the falsy formula.\<close>

definition getBaseCritRoll :: "('t, 'r, 'g) engine \<Rightarrow> string \<Rightarrow> ('t, 'r) Roll option" where
  "getBaseCritRoll E baseFormula =
     (if baseFormula = [] then None
      else
        let strippedRoll = engNew E baseFormula;
            strippedRoll = strippedRoll\<lparr> terms := map clearOptions (terms strippedRoll) \<rparr>;
            critFormula = critReplace (engFormula E strippedRoll);
            critRoll = engNew E critFormula
        in case terms critRoll of
             [RawNumber n] \<Rightarrow> None
           | _ \<Rightarrow> Some critRoll)"

text \<open>
  \<open>getCritRoll(baseFormula, baseTotal, {settings, extraCritDice})\<close>. The setting
  \<open>critBehavior\<close> read through \<open>getSettings\<close> is a parameter; it is compared with the strings
  \<open>"2"\<close>, \<open>"3"\<close> and \<open>"4"\<close>.
\<close>

definition getCritRoll ::
  "('t, 'r, 'g) engine \<Rightarrow> string \<Rightarrow> string \<Rightarrow> int \<Rightarrow> int option \<Rightarrow> 'g
     \<Rightarrow> ('t, 'r) Roll option \<times> 'g" where
  "getCritRoll E critBehavior baseFormula baseTotal extraCritDice g =
     (case getBaseCritRoll E baseFormula of
        None \<Rightarrow> (None, g)
      | Some critRoll0 \<Rightarrow>
          (let altered = engAlter E 1 (case extraCritDice of None \<Rightarrow> 0 | Some n \<Rightarrow> n) critRoll0;
               (critRoll, g1) = engEvaluate E False altered g
           in if critBehavior = ''2'' then
                (let (r, g2) = engEvaluate E True (engNew E (engFormula E critRoll)) g1
                 in (Some r, g2))
              else if critBehavior = ''3'' then
                (let (maxRoll, g2) = engEvaluate E True (engNew E baseFormula) g1;
                     maxDifference = engTotal E maxRoll - baseTotal;
                     newFormula = engFormula E critRoll @ ''+'' @ showInt maxDifference;
                     (r, g3) = engEvaluate E True (engNew E newFormula) g2
                 in (Some r, g3))
              else if critBehavior = ''4'' then
                (let (maxRoll, g2) = engEvaluate E True (engNew E baseFormula) g1;
                     maxDifference = engTotal E maxRoll - baseTotal;
                     newFormula = engFormula E critRoll @ ''+'' @ showInt maxDifference;
                     (r, g3) = engEvaluate E False (engNew E newFormula) g2
                 in (Some r, g3))
              else (Some critRoll, g1)))"

subsection \<open>The roll engine\<close>

text \<open>
  Modelled from the spec: the roll evaluation engine, which is the host platform's class
  \<open>Roll\<close> and is not in the repository. The specification asks of it to parse a formula into
  terms (dice terms with a count and a face count, \<open>+\<close> and \<open>-\<close> operator terms, flat
  numbers), to give the formula of a roll back, to raise the counts of the dice terms, and to
  evaluate a roll either normally or with every die at its maximum face value, the total
  being the sum of the terms under their signs. A term object of the engine is a die or a
  number.
\<close>

datatype sterm = SDie nat nat | SNum int

definition isSignChar :: "char \<Rightarrow> bool" where
  "isSignChar c = (c = CHR ''+'' \<or> c = CHR ''-'')"

text \<open>
  Modelled from the spec: the parser of the engine. The text between two signs is an operand:
  a string of digits is a flat number, \<open>digits d digits\<close> is a dice term, anything else is
  kept as a string. A flat number is a term of type number, or a term object when
  \<open>numObj\<close> is set (the two representations a roll engine can choose between). Spaces are
  skipped, and each sign is a string term of its own.
\<close>

definition operand :: "bool \<Rightarrow> string \<Rightarrow> sterm rterm list" where
  "operand numObj p =
     (if p = [] then []
      else if allDigits p then
        [if numObj then TermObject (Some []) (SNum (int (readNat p)))
         else RawNumber (int (readNat p))]
      else case splitOn CHR ''d'' p of
             [a, b] \<Rightarrow> if allDigits a \<and> allDigits b
                        then [TermObject (Some []) (SDie (readNat a) (readNat b))]
                        else [RawString p]
           | _ \<Rightarrow> [RawString p])"

fun tokens :: "bool \<Rightarrow> string \<Rightarrow> string \<Rightarrow> sterm rterm list" where
  "tokens numObj cur [] = operand numObj cur"
| "tokens numObj cur (c # cs) =
     (if isSignChar c then operand numObj cur @ RawString [c] # tokens numObj [] cs
      else if c = CHR '' '' then tokens numObj cur cs
      else tokens numObj (cur @ [c]) cs)"

text \<open>
  Modelled from the spec: the formula getter, the value of a term (a die shows its face count
  under \<open>maximize\<close>, and a value drawn from the state of the dice otherwise), the total of a
  list of terms, where a sign applies to the term after it, and \<open>alter\<close> on a dice term.
\<close>

fun showTerm :: "sterm rterm \<Rightarrow> string" where
  "showTerm (RawNumber n) = showInt n"
| "showTerm (RawString s) = s"
| "showTerm (TermObject os (SNum n)) = showInt n"
| "showTerm (TermObject os (SDie n f)) = showNat n @ ''d'' @ showNat f"

fun termValue :: "bool \<Rightarrow> nat \<Rightarrow> sterm rterm \<Rightarrow> int" where
  "termValue maximize g (RawNumber n) = n"
| "termValue maximize g (RawString s) = 0"
| "termValue maximize g (TermObject os (SNum n)) = n"
| "termValue maximize g (TermObject os (SDie n f)) =
     int (n * (if maximize then f else 1 + g mod f))"

fun sumTerms :: "(sterm rterm \<Rightarrow> int) \<Rightarrow> int \<Rightarrow> sterm rterm list \<Rightarrow> int" where
  "sumTerms v sg [] = 0"
| "sumTerms v sg (RawString s # ts) =
     (if s = ''+'' then sumTerms v 1 ts
      else if s = ''-'' then sumTerms v (- 1) ts
      else sumTerms v 1 ts)"
| "sumTerms v sg (t # ts) = sg * v t + sumTerms v 1 ts"

fun alterTerm :: "int \<Rightarrow> int \<Rightarrow> sterm rterm \<Rightarrow> sterm rterm" where
  "alterTerm mul add (TermObject os (SDie n f)) = TermObject os (SDie (nat (int n * mul + add)) f)"
| "alterTerm mul add t = t"

text \<open>
  Modelled from the spec: the engine itself. An evaluation without \<open>maximize\<close> moves the state
  of the dice on.
\<close>

definition specEngine :: "bool \<Rightarrow> (sterm, int, nat) engine" where
  "specEngine numObj =
     \<lparr> engNew = (\<lambda>s. \<lparr> terms = tokens numObj [] s, internals = 0 \<rparr>),
       engFormula = (\<lambda>r. joinWith '' '' (map showTerm (terms r))),
       engAlter = (\<lambda>mul add r. r\<lparr> terms := map (alterTerm mul add) (terms r) \<rparr>),
       engEvaluate = (\<lambda>maximize r g.
          (r\<lparr> internals := sumTerms (termValue maximize g) 1 (terms r) \<rparr>,
           if maximize then g else Suc g)),
       engTotal = internals \<rparr>"

text \<open>Decimal strings are read back as the numbers they print.\<close>

lemma digits10: "\<forall>d\<in>set [0..<10]. isDigit (digitChar d) \<and> (of_char (digitChar d) :: nat) - 48 = d"
  by code_simp

lemma digitChar_ok:
  assumes "d < 10"
  shows "isDigit (digitChar d)" and "(of_char (digitChar d) :: nat) - 48 = d"
  using assms digits10 by auto

lemma showNat_digits: "showNat n \<noteq> [] \<and> list_all isDigit (showNat n)"
proof (induction n rule: showNat.induct)
  case (1 n)
  show ?case
  proof (cases "n < 10")
    case True
    then show ?thesis
      by (subst showNat.simps, subst (2) showNat.simps) (simp add: digitChar_ok)
  next
    case False
    then show ?thesis
      using 1 by (subst showNat.simps, subst (2) showNat.simps) (simp add: digitChar_ok)
  qed
qed

lemma readNat_snoc: "readNat (xs @ [c]) = 10 * readNat xs + (of_char c - 48)"
  by (simp add: readNat_def)

lemma readNat_showNat: "readNat (showNat n) = n"
proof (induction n rule: showNat.induct)
  case (1 n)
  show ?case
  proof (cases "n < 10")
    case True
    then show ?thesis
      by (subst showNat.simps) (simp add: readNat_def digitChar_ok)
  next
    case False
    then have "readNat (showNat n) = 10 * readNat (showNat (n div 10)) + (of_char (digitChar (n mod 10)) - 48)"
      by (subst showNat.simps) (simp add: readNat_snoc)
    then show ?thesis
      using 1 False by (simp add: digitChar_ok)
  qed
qed

text \<open>The parser splits at a sign, and reads a decimal string as one number.\<close>

lemma tokens_sign:
  "isSignChar c \<Longrightarrow>
   tokens b cur (xs @ c # ys) = tokens b cur xs @ RawString [c] # tokens b [] ys"
  by (induction xs arbitrary: cur) auto

lemma digit_plain: "isDigit c \<Longrightarrow> \<not> isSignChar c \<and> c \<noteq> CHR '' ''"
  by (auto simp: isDigit_def isSignChar_def)

lemma tokens_digits: "list_all isDigit ds \<Longrightarrow> tokens b cur ds = operand b (cur @ ds)"
  by (induction ds arbitrary: cur) (auto simp: digit_plain)

lemma operand_number:
  "allDigits p \<Longrightarrow>
   operand b p = [if b then TermObject (Some []) (SNum (int (readNat p)))
                  else RawNumber (int (readNat p))]"
  by (auto simp: operand_def allDigits_def)

lemma tokens_showNat:
  "tokens b [] (showNat k) =
     [if b then TermObject (Some []) (SNum (int k)) else RawNumber (int k)]"
  using showNat_digits [of k]
  by (simp add: tokens_digits operand_number allDigits_def readNat_showNat)

lemma sumTerms_plus:
  "sumTerms v sg (ts @ RawString ''+'' # us) = sumTerms v sg ts + sumTerms v 1 us"
  by (induction v sg ts rule: sumTerms.induct) auto

lemma sumTerms_showInt:
  "sumTerms (termValue mx g) 1 (tokens b [] (showInt n)) = n"
proof (cases "n < 0")
  case True
  have "tokens b [] (showInt n) =
          RawString ''-'' # tokens b [] (showNat (nat (- n)))"
    using True by (simp add: showInt_def isSignChar_def operand_def)
  then show ?thesis
    using True by (simp add: tokens_showNat)
next
  case False
  then show ?thesis
    by (simp add: showInt_def tokens_showNat)
qed

text \<open>
  The law of the engine that claim C2 rests on: evaluated with \<open>maximize\<close>, a formula followed
  by \<open>+\<close> and the decimal string of a number has the total of the formula plus that number.
\<close>

definition maxAdditive :: "('t, 'r, 'g) engine \<Rightarrow> bool" where
  "maxAdditive E =
     (\<forall>F n g. engTotal E (fst (engEvaluate E True (engNew E (F @ ''+'' @ showInt n)) g)) =
              engTotal E (fst (engEvaluate E True (engNew E F) g)) + n)"

lemma specEngine_maxAdditive: "maxAdditive (specEngine b)"
proof -
  have "\<And>F n. tokens b [] (F @ ''+'' @ showInt n) =
            tokens b [] F @ RawString ''+'' # tokens b [] (showInt n)"
    using tokens_sign [of "CHR ''+''" b "[]"] by (simp add: isSignChar_def)
  then show ?thesis
    by (simp add: maxAdditive_def specEngine_def sumTerms_plus sumTerms_showInt)
qed










text \<open>
  Claim C7. A \<open>critBehavior\<close> other than \<open>"2"\<close>, \<open>"3"\<close> and \<open>"4"\<close> takes none of the three
  branches: the result is the roll evaluated after \<open>alter\<close>, the same as for \<open>"1"\<close>, and
  \<open>null\<close> when there are no dice. No branch raises.
\<close>

theorem getCritRoll_fallthrough:
  "critBehavior \<noteq> ''2'' \<and> critBehavior \<noteq> ''3'' \<and> critBehavior \<noteq> ''4'' \<longrightarrow>
     getCritRoll E critBehavior baseFormula baseTotal extraCritDice g =
       getCritRoll E ''1'' baseFormula baseTotal extraCritDice g
     \<and> getCritRoll E critBehavior baseFormula baseTotal extraCritDice g =
         (case getBaseCritRoll E baseFormula of
            None \<Rightarrow> (None, g)
          | Some critRoll0 \<Rightarrow>
              (case engEvaluate E False
                      (engAlter E 1 (case extraCritDice of None \<Rightarrow> 0 | Some n \<Rightarrow> n) critRoll0) g of
                 (critRoll, g1) \<Rightarrow> (Some critRoll, g1)))"
  by (auto simp: getCritRoll_def Let_def split: option.splits prod.splits)

theorem getCritRoll_fallthrough_witness:
  "''7'' \<noteq> ''2'' \<and> ''7'' \<noteq> ''3'' \<and> ''7'' \<noteq> ''4''
   \<and> getCritRoll (specEngine False) ''7'' ''1d8+3'' 7 (Some 1) 4 =
       getCritRoll (specEngine False) ''1'' ''1d8+3'' 7 (Some 1) 4
   \<and> getCritRoll (specEngine False) ''7'' ''1d8+3'' 7 (Some 1) 4 =
       (Some \<lparr> terms = [TermObject (Some []) (SDie 2 8)], internals = 10 \<rparr>, 5)"
proof -
  have h: "''7'' \<noteq> ''2'' \<and> ''7'' \<noteq> ''3'' \<and> ''7'' \<noteq> ''4''"
    by simp
  note T = getCritRoll_fallthrough [of "''7''" "specEngine False" "''1d8+3''" 7 "Some 1" 4]
  have A: "getCritRoll (specEngine False) ''7'' ''1d8+3'' 7 (Some 1) 4 =
             getCritRoll (specEngine False) ''1'' ''1d8+3'' 7 (Some 1) 4"
    using T h by blast
  have "getCritRoll (specEngine False) ''7'' ''1d8+3'' 7 (Some 1) 4 =
          (case getBaseCritRoll (specEngine False) ''1d8+3'' of
             None \<Rightarrow> (None, 4)
           | Some critRoll0 \<Rightarrow>
               (case engEvaluate (specEngine False) False
                       (engAlter (specEngine False) 1 (case Some 1 of None \<Rightarrow> 0 | Some n \<Rightarrow> n) critRoll0) 4 of
                  (critRoll, g1) \<Rightarrow> (Some critRoll, g1)))"
    using T h by blast
  also have "\<dots> = (Some \<lparr> terms = [TermObject (Some []) (SDie 2 8)], internals = 10 \<rparr>, 5)"
    by code_simp
  finally show ?thesis
    using h A by simp
qed

text \<open>
  Claim C2. Under \<open>critBehavior = "3"\<close>, when the base formula has dice: \<open>maxDifference\<close> is
  the total of the base formula evaluated with \<open>maximize\<close> minus the base total; the formula
  evaluated, with \<open>maximize\<close>, is the formula of the crit roll followed by \<open>+\<close> and the
  decimal string of \<open>maxDifference\<close>; the roll returned is that evaluation. On an engine with
  the law \<open>maxAdditive\<close> its total is the maximized total of the crit formula plus
  \<open>maxDifference\<close>. The engine modelled above has the law, with either representation of
  numbers, for every formula and every number; so on that engine the total of the roll
  returned is the maximized total of the crit formula plus \<open>maxDifference\<close> for every base
  formula with dice, every base total, every number of extra dice and every state of the
  dice.
\<close>

theorem getCritRoll_maximize_all:
  "(maxAdditive E
    \<and> getBaseCritRoll E baseFormula = Some critRoll0
    \<and> engEvaluate E False
         (engAlter E 1 (case extraCritDice of None \<Rightarrow> 0 | Some n \<Rightarrow> n) critRoll0) g = (critRoll, g1)
    \<and> engEvaluate E True (engNew E baseFormula) g1 = (maxRoll, g2)
    \<and> maxDifference = engTotal E maxRoll - baseTotal
    \<longrightarrow>
      (\<exists>r g3. getCritRoll E ''3'' baseFormula baseTotal extraCritDice g = (Some r, g3)
         \<and> (r, g3) = engEvaluate E True
                        (engNew E (engFormula E critRoll @ ''+'' @ showInt maxDifference)) g2
         \<and> engTotal E r =
             engTotal E (fst (engEvaluate E True (engNew E (engFormula E critRoll)) g2))
               + maxDifference))
   \<and> maxAdditive (specEngine numObj)
   \<and> (getBaseCritRoll (specEngine numObj) formula0 = Some base0 \<longrightarrow>
        (\<exists>r g3.
           getCritRoll (specEngine numObj) ''3'' formula0 total0 extra0 g0 = (Some r, g3)
           \<and> engTotal (specEngine numObj) r =
               engTotal (specEngine numObj)
                 (fst (engEvaluate (specEngine numObj) True
                    (engNew (specEngine numObj)
                       (engFormula (specEngine numObj)
                          (fst (engEvaluate (specEngine numObj) False
                                  (engAlter (specEngine numObj) 1
                                     (case extra0 of None \<Rightarrow> 0 | Some n \<Rightarrow> n) base0) g0))))
                    (Suc g0)))
               + (engTotal (specEngine numObj)
                    (fst (engEvaluate (specEngine numObj) True
                            (engNew (specEngine numObj) formula0) (Suc g0)))
                  - total0)))"
proof (intro conjI impI)
  assume a: "maxAdditive E
    \<and> getBaseCritRoll E baseFormula = Some critRoll0
    \<and> engEvaluate E False
         (engAlter E 1 (case extraCritDice of None \<Rightarrow> 0 | Some n \<Rightarrow> n) critRoll0) g = (critRoll, g1)
    \<and> engEvaluate E True (engNew E baseFormula) g1 = (maxRoll, g2)
    \<and> maxDifference = engTotal E maxRoll - baseTotal"
  let ?new = "engNew E (engFormula E critRoll @ ''+'' @ showInt maxDifference)"
  obtain r g3 where e: "engEvaluate E True ?new g2 = (r, g3)"
    by (cases "engEvaluate E True ?new g2") auto
  have "getCritRoll E ''3'' baseFormula baseTotal extraCritDice g = (Some r, g3)"
    using a e by (simp add: getCritRoll_def Let_def)
  moreover have "engTotal E r =
      engTotal E (fst (engEvaluate E True (engNew E (engFormula E critRoll)) g2)) + maxDifference"
  proof -
    have "engTotal E (fst (engEvaluate E True ?new g2)) =
          engTotal E (fst (engEvaluate E True (engNew E (engFormula E critRoll)) g2)) + maxDifference"
      using a unfolding maxAdditive_def by blast
    with e show ?thesis by simp
  qed
  ultimately show "\<exists>r g3. getCritRoll E ''3'' baseFormula baseTotal extraCritDice g = (Some r, g3)
         \<and> (r, g3) = engEvaluate E True ?new g2
         \<and> engTotal E r =
             engTotal E (fst (engEvaluate E True (engNew E (engFormula E critRoll)) g2))
               + maxDifference"
    using e by auto
next
  show "maxAdditive (specEngine numObj)"
    by (rule specEngine_maxAdditive)
next
  assume b: "getBaseCritRoll (specEngine numObj) formula0 = Some base0"
  let ?E = "specEngine numObj"
  let ?cr = "fst (engEvaluate ?E False
                (engAlter ?E 1 (case extra0 of None \<Rightarrow> 0 | Some n \<Rightarrow> n) base0) g0)"
  let ?d = "engTotal ?E (fst (engEvaluate ?E True (engNew ?E formula0) (Suc g0))) - total0"
  let ?new = "engNew ?E (engFormula ?E ?cr @ ''+'' @ showInt ?d)"
  have s1: "snd (engEvaluate ?E False x g) = Suc g" for x g
    by (simp add: specEngine_def)
  have s2: "snd (engEvaluate ?E True x g) = g" for x g
    by (simp add: specEngine_def)
  have "getCritRoll ?E ''3'' formula0 total0 extra0 g0 =
          (Some (fst (engEvaluate ?E True ?new (Suc g0))), Suc g0)"
    using b s1 s2 by (simp add: getCritRoll_def Let_def case_prod_beta)
  moreover have "engTotal ?E (fst (engEvaluate ?E True ?new (Suc g0))) =
      engTotal ?E (fst (engEvaluate ?E True (engNew ?E (engFormula ?E ?cr)) (Suc g0))) + ?d"
    using specEngine_maxAdditive [of numObj] unfolding maxAdditive_def by blast
  ultimately show "\<exists>r g3.
           getCritRoll ?E ''3'' formula0 total0 extra0 g0 = (Some r, g3)
           \<and> engTotal ?E r =
               engTotal ?E (fst (engEvaluate ?E True (engNew ?E (engFormula ?E ?cr)) (Suc g0)))
               + ?d"
    by blast
qed

text \<open>
  The base formula \<open>1d8+3\<close> with base total 7: the crit formula is \<open>1d8\<close>, the base formula
  maximized is 11, \<open>maxDifference\<close> is 4, and \<open>1d8+4\<close> maximized is 12, which is 8 + 4.
\<close>

theorem getCritRoll_maximize_all_witness:
  "getBaseCritRoll (specEngine False) ''1d8+3'' =
     Some \<lparr> terms = [TermObject (Some []) (SDie 1 8)], internals = 0 \<rparr>
   \<and> engTotal (specEngine False)
       (fst (engEvaluate (specEngine False) True (engNew (specEngine False) ''1d8+3'') 5)) - 7 = 4
   \<and> getCritRoll (specEngine False) ''3'' ''1d8+3'' 7 None 4 =
       (Some \<lparr> terms = [TermObject (Some []) (SDie 1 8), RawString ''+'', RawNumber 4],
               internals = 12 \<rparr>, 5)
   \<and> engTotal (specEngine False)
       (fst (engEvaluate (specEngine False) True (engNew (specEngine False) ''1d8'') 5)) = 8"
proof -
  let ?E = "specEngine False"
  let ?base = "\<lparr> terms = [TermObject (Some []) (SDie 1 8)], internals = 0 \<rparr> :: (sterm, int) Roll"
  let ?cr = "\<lparr> terms = [TermObject (Some []) (SDie 1 8)], internals = 5 \<rparr> :: (sterm, int) Roll"
  let ?mx = "\<lparr> terms = [TermObject (Some []) (SDie 1 8), RawString ''+'', RawNumber 3],
              internals = 11 \<rparr> :: (sterm, int) Roll"
  let ?r = "\<lparr> terms = [TermObject (Some []) (SDie 1 8), RawString ''+'', RawNumber 4],
             internals = 12 \<rparr> :: (sterm, int) Roll"
  note T = getCritRoll_maximize_all [of ?E "''1d8+3''" ?base None 4 ?cr 5 ?mx 5 4 7 False
      "''1d8+3''" ?base 7 None 4]
  have law: "maxAdditive ?E"
    using T by blast
  have b: "getBaseCritRoll ?E ''1d8+3'' = Some ?base"
    by code_simp
  have e1: "engEvaluate ?E False (engAlter ?E 1 (case None of None \<Rightarrow> 0 | Some n \<Rightarrow> n) ?base) 4 = (?cr, 5)"
    by code_simp
  have e2: "engEvaluate ?E True (engNew ?E ''1d8+3'') 5 = (?mx, 5)"
    by code_simp
  have d: "(4::int) = engTotal ?E ?mx - 7"
    by code_simp
  have e3: "engEvaluate ?E True (engNew ?E (engFormula ?E ?cr @ ''+'' @ showInt 4)) 5 = (?r, 5)"
    by code_simp
  have e4: "engTotal ?E (fst (engEvaluate ?E True (engNew ?E ''1d8'') 5)) = 8"
    by code_simp
  obtain r g3 where g: "getCritRoll ?E ''3'' ''1d8+3'' 7 None 4 = (Some r, g3)"
    and r: "(r, g3) = engEvaluate ?E True (engNew ?E (engFormula ?E ?cr @ ''+'' @ showInt 4)) 5"
    using T law b e1 e2 d by blast
  have "getCritRoll ?E ''3'' ''1d8+3'' 7 None 4 = (Some ?r, 5)"
    using g r e3 by simp
  then show ?thesis
    using b e2 e4 d by simp
qed

text \<open>
  Claim C3, on the filter. On the example of the specification the filter leaves the dice:
  \<open>1d8+3\<close> becomes \<open>1d8\<close>. On a formula with a die count of two digits after a sign it
  removes the sign and the first digit of the count: the lookahead refuses \<open>10\<close> before \<open>d\<close>,
  the repetition gives one digit back, and \<open>1\<close> before \<open>0\<close> is accepted. \<open>1d10 + 10d6 + 3\<close>
  becomes \<open>1d10 0d6\<close> and \<open>1d8+12d6\<close> becomes \<open>1d82d6\<close>, neither of which is the dice
  portion of its formula.
\<close>

theorem critReplace_two_digit_count:
  "critReplace ''1d8+3'' = ''1d8''
   \<and> matchAt ''+ 10d6 + 3'' = Some ''0d6 + 3''
   \<and> critReplace ''1d10 + 10d6 + 3'' = ''1d10 0d6 ''
   \<and> critReplace ''1d8+12d6'' = ''1d82d6''"
  by code_simp

end
